theory Spec2Isabelle
  imports Complex_Main
begin

section \<open>JSON values and the Python operations the scripts apply to them\<close>

text \<open>
  Every script reads its inputs with \<^verbatim>\<open>json.load\<close>/\<^verbatim>\<open>json.loads\<close>, and the service
  reads its request body with \<^verbatim>\<open>request.get_json\<close>, so the data are parsed JSON: Python's
  \<^verbatim>\<open>None\<close>, \<^verbatim>\<open>bool\<close>, numbers, \<^verbatim>\<open>str\<close>, \<^verbatim>\<open>list\<close> and \<^verbatim>\<open>dict\<close>. A dict is kept as
  the association list of its items and read with \<open>map_of\<close>. Numbers are reals: a double's
  rounding, NaN, the infinities and an integer too large for \<^verbatim>\<open>float()\<close> are outside the
  model.
\<close>

datatype json =
    JNull
  | JBool bool
  | JNum real
  | JStr string
  | JArr "json list"
  | JObj "(string \<times> json) list"

datatype py_error = AttributeError | KeyError | TypeError | ValueError

text \<open>Truth value of an object, as \<^verbatim>\<open>if x\<close>, \<^verbatim>\<open>not x\<close> and \<^verbatim>\<open>x or y\<close> test it.\<close>

fun truthy :: "json \<Rightarrow> bool" where
  "truthy JNull = False"
| "truthy (JBool b) = b"
| "truthy (JNum x) = (x \<noteq> 0)"
| "truthy (JStr s) = (s \<noteq> [])"
| "truthy (JArr xs) = (xs \<noteq> [])"
| "truthy (JObj kvs) = (kvs \<noteq> [])"

definition py_or :: "json \<Rightarrow> json \<Rightarrow> json" where
  "py_or x y = (if truthy x then x else y)"

text \<open>\<^verbatim>\<open>d.get(k, default)\<close> on a dict; \<^verbatim>\<open>d.get(k)\<close> is \<open>dict_get d k JNull\<close>.\<close>

definition dict_get :: "(string \<times> json) list \<Rightarrow> string \<Rightarrow> json \<Rightarrow> json" where
  "dict_get d k dflt = (case map_of d k of None \<Rightarrow> dflt | Some v \<Rightarrow> v)"

text \<open>
  \<^verbatim>\<open>x.get(k, default)\<close> on any value: only a dict has the method, every other value
  raises AttributeError.
\<close>

fun py_get :: "json \<Rightarrow> string \<Rightarrow> json \<Rightarrow> py_error + json" where
  "py_get (JObj d) k dflt = Inr (dict_get d k dflt)"
| "py_get _ k dflt = Inl AttributeError"

text \<open>
  \<^verbatim>\<open>float(x)\<close>. A number converts to itself and a bool to 0.0 or 1.0; \<^verbatim>\<open>None\<close>, a list
  and a dict raise TypeError. A \<^verbatim>\<open>str\<close> is parsed by the interpreter: \<open>str_float\<close> stands
  for that parser (\<open>None\<close> where it raises ValueError) and is a parameter of everything
  that converts.
\<close>

fun py_float :: "(string \<Rightarrow> real option) \<Rightarrow> json \<Rightarrow> py_error + real" where
  "py_float str_float (JNum x) = Inr x"
| "py_float str_float (JBool b) = Inr (if b then 1 else 0)"
| "py_float str_float (JStr s) =
     (case str_float s of None \<Rightarrow> Inl ValueError | Some x \<Rightarrow> Inr x)"
| "py_float str_float JNull = Inl TypeError"
| "py_float str_float (JArr xs) = Inl TypeError"
| "py_float str_float (JObj d) = Inl TypeError"

text \<open>A list comprehension whose element expression can raise: the first raise wins.\<close>

fun collect :: "('e + 'a) list \<Rightarrow> 'e + 'a list" where
  "collect [] = Inr []"
| "collect (Inl e # rs) = Inl e"
| "collect (Inr x # rs) = (case collect rs of Inl e \<Rightarrow> Inl e | Inr xs \<Rightarrow> Inr (x # xs))"


lemma collect_all_Inr:
  "(\<And>x. x \<in> set xs \<Longrightarrow> f x = Inr (g x)) \<Longrightarrow> collect (map f xs) = Inr (map g xs)"
  by (induction xs) simp_all

lemma collect_length: "collect rs = Inr xs \<Longrightarrow> length xs = length rs"
proof (induction rs arbitrary: xs)
  case Nil
  then show ?case by simp
next
  case (Cons r rs)
  then show ?case by (cases r) (auto split: sum.splits)
qed




section \<open>Feature Codec\<close>

text \<open>
  \<^verbatim>\<open>FEATURE_NAMES\<close> and \<^verbatim>\<open>GESTURE_TYPES\<close> are declared twice, with the same contents, in
  \<^verbatim>\<open>scripts/train_student.py\<close> and \<^verbatim>\<open>student/service.py\<close>.
\<close>

definition FEATURE_NAMES :: "string list" where
  "FEATURE_NAMES =
    [''swipeDisplacement'', ''swipeDuration'', ''peakVelocity'',
     ''fingersExtended'', ''handSide'', ''handSpan'',
     ''wristX'', ''wristY'', ''palmFacing'',
     ''wristVelocityX'', ''wristVelocityY'', ''stateConfidence'']"

definition GESTURE_TYPES :: "string list" where
  "GESTURE_TYPES = [''OPEN_MENU'', ''CLOSE_MENU'', ''SWITCH_RIGHT'', ''SWITCH_LEFT'']"

definition onehot :: "json \<Rightarrow> real list" where
  "onehot gesture_type = map (\<lambda>g. if gesture_type = JStr g then 1 else 0) GESTURE_TYPES"

text \<open>
  \<^verbatim>\<open>features_to_row\<close> of \<^verbatim>\<open>train_student.py\<close>. \<^verbatim>\<open>features.get\<close> needs a dict; each of
  the twelve values goes through \<^verbatim>\<open>float()\<close>.
\<close>

definition numeric_part :: "(string \<Rightarrow> real option) \<Rightarrow> json \<Rightarrow> py_error + real list" where
  "numeric_part str_float features =
     (case features of
        JObj d \<Rightarrow> collect (map (\<lambda>n. py_float str_float (dict_get d n (JNum 0))) FEATURE_NAMES)
      | _ \<Rightarrow> Inl AttributeError)"

definition features_to_row ::
  "(string \<Rightarrow> real option) \<Rightarrow> json \<Rightarrow> json \<Rightarrow> py_error + real list" where
  "features_to_row str_float features gesture_type =
     (case numeric_part str_float features of
        Inl e \<Rightarrow> Inl e
      | Inr numeric \<Rightarrow> Inr (numeric @ onehot gesture_type))"

text \<open>
  \<^verbatim>\<open>_features_to_vector\<close> of \<^verbatim>\<open>service.py\<close>: the same two comprehensions, packed as a
  matrix of one row (\<^verbatim>\<open>reshape(1, -1)\<close>).
\<close>

definition features_to_vector ::
  "(string \<Rightarrow> real option) \<Rightarrow> json \<Rightarrow> json \<Rightarrow> py_error + real list list" where
  "features_to_vector str_float features gesture_type =
     (case numeric_part str_float features of
        Inl e \<Rightarrow> Inl e
      | Inr numeric \<Rightarrow> Inr [numeric @ onehot gesture_type])"













section \<open>Serving Runtime (\<^verbatim>\<open>student/service.py\<close>)\<close>

text \<open>
  A trained scikit-learn classifier is opaque: it is the function from a feature row to
  the predicted class (\<^verbatim>\<open>predict\<close>) and the function from a feature row to the class
  probabilities (\<^verbatim>\<open>predict_proba\<close>). Both take a matrix and answer row by row.
\<close>

record classifier =
  clf_predict :: "real list \<Rightarrow> int"
  clf_predict_proba :: "real list \<Rightarrow> real list"

definition predict_rows :: "classifier \<Rightarrow> real list list \<Rightarrow> int list" where
  "predict_rows m X = map (clf_predict m) X"

definition predict_proba_rows :: "classifier \<Rightarrow> real list list \<Rightarrow> real list list" where
  "predict_proba_rows m X = map (clf_predict_proba m) X"

text \<open>
  The dict that \<^verbatim>\<open>train_student.py\<close> dumps with joblib. The readers use
  \<^verbatim>\<open>data.get("model")\<close> and \<^verbatim>\<open>data.get("version", "unknown")\<close>, so both keys may be
  missing. A joblib file can also hold a bare classifier (\<^verbatim>\<open>isinstance(data, dict)\<close> fails).
\<close>

record model_bundle =
  b_model :: "classifier option"
  b_version :: "string option"
  b_model_type :: string
  b_timestamp :: string
  b_num_samples :: nat
  b_test_accuracy :: real
  b_calib_accuracy :: "real option"
  b_feature_names :: "string list"

datatype artifact = Bundle model_bundle | Bare classifier

text \<open>The module globals \<^verbatim>\<open>_model\<close>, \<^verbatim>\<open>_model_mtime\<close>, \<^verbatim>\<open>_model_version\<close>, \<^verbatim>\<open>_total_preds\<close>.\<close>

record service_state =
  model :: "classifier option"
  model_mtime :: "real option"
  model_version :: "string option"
  total_preds :: nat

definition initial_state :: service_state where
  "initial_state = \<lparr>model = None, model_mtime = None, model_version = None, total_preds = 0\<rparr>"

text \<open>
  \<^verbatim>\<open>_load_model_if_needed\<close>. Its view of the disk is \<open>file\<close>: \<open>None\<close> when
  \<^verbatim>\<open>current_model.joblib\<close> does not exist, else its modification time and contents.
\<close>

definition load_model_if_needed :: "(real \<times> artifact) option \<Rightarrow> service_state \<Rightarrow> service_state" where
  "load_model_if_needed file st =
     (case file of
        None \<Rightarrow> st\<lparr>model := None, model_mtime := None, model_version := None\<rparr>
      | Some (mtime, data) \<Rightarrow>
          if model st = None \<or> Some mtime \<noteq> model_mtime st then
            (case data of
               Bundle b \<Rightarrow>
                 st\<lparr>model := b_model b,
                    model_version := Some (case b_version b of None \<Rightarrow> ''unknown'' | Some v \<Rightarrow> v),
                    model_mtime := Some mtime\<rparr>
             | Bare c \<Rightarrow>
                 st\<lparr>model := Some c, model_version := Some ''v?'', model_mtime := Some mtime\<rparr>)
          else st)"

text \<open>\<^verbatim>\<open>max(proba)\<close>: the built-in raises ValueError on an empty sequence.\<close>

fun py_max :: "real list \<Rightarrow> py_error + real" where
  "py_max [] = Inl ValueError"
| "py_max (x # xs) = Inr (fold max xs x)"

text \<open>\<^verbatim>\<open>round(x, ndigits)\<close>: to the nearest multiple of \<open>10 ^ -ndigits\<close>, ties to even.\<close>

definition py_round :: "real \<Rightarrow> nat \<Rightarrow> real" where
  "py_round x ndigits =
     (let y = x * 10 ^ ndigits; f = \<lfloor>y\<rfloor>; d = y - of_int f
      in of_int (if d < 1/2 then f else if 1/2 < d then f + 1 else if even f then f else f + 1)
           / 10 ^ ndigits)"

record predict_response =
  execute :: bool
  confidence :: real
  resp_model_version :: "string option"
  resp_mode :: string

record status_response =
  model_loaded :: bool
  status_model_version :: "string option"
  status_mode :: string
  total_predictions :: nat

text \<open>
  The \<^verbatim>\<open>/predict\<close> handler. \<open>mode\<close> is \<^verbatim>\<open>STUDENT_MODE\<close>, read once from the environment;
  \<open>got\<close> is what \<^verbatim>\<open>request.get_json(force=True, silent=True)\<close> returns: the parsed body,
  or \<^verbatim>\<open>None\<close> (\<open>JNull\<close>) when it does not parse. The result is the response or the
  exception that leaves the handler, and the globals as the handler leaves them.
\<close>

definition predict ::
  "(string \<Rightarrow> real option) \<Rightarrow> string \<Rightarrow> (real \<times> artifact) option \<Rightarrow> json \<Rightarrow> service_state
     \<Rightarrow> (py_error + predict_response) \<times> service_state" where
  "predict str_float mode file got st =
     (let st1 = load_model_if_needed file st;
          body = py_or got (JObj [])
      in case py_get body ''features'' (JObj []) of
           Inl e \<Rightarrow> (Inl e, st1)
         | Inr features \<Rightarrow>
        (case py_get body ''type'' (JStr ''SWITCH_RIGHT'') of
           Inl e \<Rightarrow> (Inl e, st1)
         | Inr gesture_type \<Rightarrow>
        (case model st1 of
           None \<Rightarrow>
             (Inr \<lparr>execute = True, confidence = 0, resp_model_version = None, resp_mode = mode\<rparr>,
              st1)
         | Some m \<Rightarrow>
        (case features_to_vector str_float features gesture_type of
           Inl e \<Rightarrow> (Inl e, st1)
         | Inr x \<Rightarrow>
             let pred = (predict_rows m x ! 0 \<noteq> 0);
                 proba = predict_proba_rows m x ! 0
             in case py_max proba of
                  Inl e \<Rightarrow> (Inl e, st1)
                | Inr conf \<Rightarrow>
                    let st2 = st1\<lparr>total_preds := total_preds st1 + 1\<rparr>;
                        execute = (if mode = ''active'' then pred else True)
                    in (Inr \<lparr>execute = execute, confidence = py_round conf 3,
                             resp_model_version = model_version st2, resp_mode = mode\<rparr>,
                        st2)))))"

text \<open>The \<^verbatim>\<open>/status\<close> handler.\<close>

definition status ::
  "string \<Rightarrow> (real \<times> artifact) option \<Rightarrow> service_state \<Rightarrow> status_response \<times> service_state" where
  "status mode file st =
     (let st1 = load_model_if_needed file st
      in (\<lparr>model_loaded = (model st1 \<noteq> None), status_model_version = model_version st1,
           status_mode = mode, total_predictions = total_preds st1\<rparr>, st1))"

lemma load_model_total_preds [simp]:
  "total_preds (load_model_if_needed file st) = total_preds st"
  by (simp add: load_model_if_needed_def split: option.splits prod.splits artifact.splits)

lemma load_model_absent [simp]: "model (load_model_if_needed None st) = None"
  by (simp add: load_model_if_needed_def)

lemma py_max_nonempty: "ps \<noteq> [] \<Longrightarrow> py_max ps = Inr (Max (set ps))"
proof (cases ps)
  case Nil
  then show "ps \<noteq> [] \<Longrightarrow> ?thesis" by simp
next
  case (Cons p qs)
  have "fold max qs p = Max (set (p # qs))" by (rule Max.set_eq_fold [symmetric])
  with Cons show ?thesis by simp
qed

lemma py_round_close: "\<bar>py_round x n - x\<bar> \<le> 1 / (2 * 10 ^ n)"
proof -
  define y where "y = x * 10 ^ n"
  define r :: int where
    "r = (if y - of_int \<lfloor>y\<rfloor> < 1/2 then \<lfloor>y\<rfloor>
          else if 1/2 < y - of_int \<lfloor>y\<rfloor> then \<lfloor>y\<rfloor> + 1
          else if even \<lfloor>y\<rfloor> then \<lfloor>y\<rfloor> else \<lfloor>y\<rfloor> + 1)"
  have pos: "(0::real) < 10 ^ n" by simp
  have rd: "py_round x n = of_int r / 10 ^ n"
    by (simp add: py_round_def Let_def y_def r_def)
  have half: "\<bar>of_int r - y\<bar> \<le> 1/2"
    unfolding r_def by (auto simp: abs_le_iff)
  have "py_round x n - x = (of_int r - y) / 10 ^ n"
    using pos by (simp add: rd y_def field_simps)
  then have "\<bar>py_round x n - x\<bar> = \<bar>of_int r - y\<bar> / 10 ^ n"
    by (simp add: abs_divide)
  also have "\<dots> \<le> (1/2) / 10 ^ n"
    using half pos by (intro divide_right_mono) simp_all
  finally show ?thesis by simp
qed

fun is_dict :: "json \<Rightarrow> bool" where
  "is_dict (JObj d) = True"
| "is_dict _ = False"


lemma py_or_dict [simp]: "py_or (JObj b) (JObj []) = JObj b"
  by (simp add: py_or_def)

text \<open>
  C5. In every mode but \<^verbatim>\<open>active\<close>, so in shadow mode, every response of \<^verbatim>\<open>/predict\<close> has
  \<open>execute = True\<close>, whatever the model predicts. When a model is loaded and the request's
  features encode to a row, the handler answers; the confidence it returns is the model's
  largest class probability for that row, rounded to three decimals (so within 0.0005 of
  it), in both modes; and in active mode \<open>execute\<close> is the model's verdict, the predicted
  class read as a boolean.
\<close>

theorem predict_shadow_invariant:
  "(\<forall>resp st'. mode \<noteq> ''active'' \<longrightarrow> predict sf mode file got st = (Inr resp, st')
        \<longrightarrow> execute resp)
   \<and> (\<forall>m row. model (load_model_if_needed file st) = Some m
        \<longrightarrow> features_to_row sf (dict_get b ''features'' (JObj []))
              (dict_get b ''type'' (JStr ''SWITCH_RIGHT'')) = Inr row
        \<longrightarrow> clf_predict_proba m row \<noteq> []
        \<longrightarrow> (\<exists>resp st'. predict sf mode file (JObj b) st = (Inr resp, st')
              \<and> confidence resp = py_round (Max (set (clf_predict_proba m row))) 3
              \<and> \<bar>confidence resp - Max (set (clf_predict_proba m row))\<bar> \<le> 1 / 2000
              \<and> execute resp = (if mode = ''active'' then clf_predict m row \<noteq> 0 else True)))"
proof (intro conjI allI impI)
  fix resp st'
  assume "mode \<noteq> ''active''" and "predict sf mode file got st = (Inr resp, st')"
  then show "execute resp"
    by (auto simp: predict_def Let_def split: sum.splits option.splits)
next
  fix m :: classifier and row :: "real list"
  let ?p = "Max (set (clf_predict_proba m row))"
  assume m: "model (load_model_if_needed file st) = Some m"
    and row: "features_to_row sf (dict_get b ''features'' (JObj []))
                (dict_get b ''type'' (JStr ''SWITCH_RIGHT'')) = Inr row"
    and ne: "clf_predict_proba m row \<noteq> []"
  from row have vec: "features_to_vector sf (dict_get b ''features'' (JObj []))
                (dict_get b ''type'' (JStr ''SWITCH_RIGHT'')) = Inr [row]"
    by (auto simp: features_to_row_def features_to_vector_def split: sum.splits)
  have mx: "py_max (clf_predict_proba m row) = Inr ?p"
    by (rule py_max_nonempty [OF ne])
  have close: "\<bar>py_round ?p 3 - ?p\<bar> \<le> 1 / 2000"
    using py_round_close [of ?p 3] by simp
  show "\<exists>resp st'. predict sf mode file (JObj b) st = (Inr resp, st')
          \<and> confidence resp = py_round ?p 3
          \<and> \<bar>confidence resp - ?p\<bar> \<le> 1 / 2000
          \<and> execute resp = (if mode = ''active'' then clf_predict m row \<noteq> 0 else True)"
    using close
    by (simp add: predict_def Let_def m vec mx predict_rows_def predict_proba_rows_def)
qed

theorem predict_shadow_invariant_witness:
  "\<exists>resp st'.
     predict Map.empty ''shadow''
       (Some (1, Bare \<lparr>clf_predict = (\<lambda>row. 0), clf_predict_proba = (\<lambda>row. [1/5, 4/5])\<rparr>))
       (JObj [(''features'', JObj [(''wristX'', JNum (1/2))]), (''type'', JStr ''OPEN_MENU'')])
       initial_state = (Inr resp, st')
     \<and> execute resp \<and> confidence resp = 4/5"
proof -
  let ?m = "\<lparr>clf_predict = (\<lambda>row. 0::int), clf_predict_proba = (\<lambda>row. [1/5, 4/5::real])\<rparr>"
  let ?b = "[(''features'', JObj [(''wristX'', JNum (1/2))]), (''type'', JStr ''OPEN_MENU'')]"
  let ?row = "[0, 0, 0, 0, 0, 0, 1/2, 0, 0, 0, 0, 0, 1, 0, 0, 0 :: real]"
  have m: "model (load_model_if_needed (Some (1, Bare ?m)) initial_state) = Some ?m"
    by (simp add: load_model_if_needed_def initial_state_def)
  have row: "features_to_row Map.empty (dict_get ?b ''features'' (JObj []))
               (dict_get ?b ''type'' (JStr ''SWITCH_RIGHT'')) = Inr ?row"
    by (simp add: features_to_row_def numeric_part_def FEATURE_NAMES_def dict_get_def
        onehot_def GESTURE_TYPES_def)
  have ne: "clf_predict_proba ?m ?row \<noteq> []" by simp
  have r: "py_round (4/5) 3 = 4/5" by (simp add: py_round_def Let_def)
  from predict_shadow_invariant [of "''shadow''" Map.empty "Some (1, Bare ?m)" "JObj ?b"
      initial_state ?b, THEN conjunct2, rule_format, OF m row ne]
  show ?thesis by (auto simp: r)
qed




text \<open>
  C10. \<^verbatim>\<open>/predict\<close> leaves \<^verbatim>\<open>_total_preds\<close> one higher exactly when it answers with a model
  loaded; a degraded answer and a request that ends in an exception leave it unchanged.
  \<^verbatim>\<open>/status\<close> leaves it unchanged and reports it.
\<close>

theorem total_preds_counts_model_backed:
  "total_preds (snd (predict sf mode file got st)) =
     (if (\<exists>resp. fst (predict sf mode file got st) = Inr resp)
          \<and> model (snd (predict sf mode file got st)) \<noteq> None
      then total_preds st + 1 else total_preds st)
   \<and> total_preds (snd (status mode file st)) = total_preds st
   \<and> total_predictions (fst (status mode file st)) = total_preds st"
proof (intro conjI)
  show "total_preds (snd (predict sf mode file got st)) =
     (if (\<exists>resp. fst (predict sf mode file got st) = Inr resp)
          \<and> model (snd (predict sf mode file got st)) \<noteq> None
      then total_preds st + 1 else total_preds st)"
    by (simp add: predict_def Let_def split: sum.splits option.splits)
  show "total_preds (snd (status mode file st)) = total_preds st"
    by (simp add: status_def Let_def)
  show "total_predictions (fst (status mode file st)) = total_preds st"
    by (simp add: status_def Let_def)
qed

theorem total_preds_counts_model_backed_witness:
  "total_preds (snd (predict Map.empty ''shadow''
       (Some (1, Bare \<lparr>clf_predict = (\<lambda>row. 0), clf_predict_proba = (\<lambda>row. [1/5, 4/5])\<rparr>))
       (JObj []) initial_state)) = 1
   \<and> total_preds (snd (predict Map.empty ''shadow'' None (JObj []) initial_state)) = 0
   \<and> total_predictions (fst (status ''shadow'' None initial_state)) = 0"
proof -
  let ?f = "Some (1::real, Bare \<lparr>clf_predict = (\<lambda>row. 0::int),
                                clf_predict_proba = (\<lambda>row. [1/5, 4/5::real])\<rparr>)"
  have a: "\<exists>resp. fst (predict Map.empty ''shadow'' ?f (JObj []) initial_state) = Inr resp"
    by (simp add: predict_def Let_def load_model_if_needed_def initial_state_def
        features_to_vector_def numeric_part_def FEATURE_NAMES_def dict_get_def
        predict_proba_rows_def)
  have b: "model (snd (predict Map.empty ''shadow'' ?f (JObj []) initial_state)) \<noteq> None"
    by (simp add: predict_def Let_def load_model_if_needed_def initial_state_def
        features_to_vector_def numeric_part_def FEATURE_NAMES_def dict_get_def
        predict_proba_rows_def)
  have c: "model (snd (predict Map.empty ''shadow'' None (JObj []) initial_state)) = None"
    by (simp add: predict_def Let_def)
  have z: "total_preds initial_state = 0" by (simp add: initial_state_def)
  from total_preds_counts_model_backed [of Map.empty "''shadow''" ?f "JObj []" initial_state]
    a b z
  have "total_preds (snd (predict Map.empty ''shadow'' ?f (JObj []) initial_state)) = 1"
    by simp
  moreover
  from total_preds_counts_model_backed [of Map.empty "''shadow''" None "JObj []" initial_state]
    c z
  have "total_preds (snd (predict Map.empty ''shadow'' None (JObj []) initial_state)) = 0
      \<and> total_predictions (fst (status ''shadow'' None initial_state)) = 0"
    by simp
  ultimately show ?thesis by simp
qed


section \<open>Clip stores (\<^verbatim>\<open>eval_cosmos.py\<close>, \<^verbatim>\<open>build_calibration.py\<close>)\<close>

text \<open>
  \<^verbatim>\<open>x[k]\<close> with a string key: a dict answers, or raises KeyError when the key is
  missing; every other JSON value raises TypeError.
\<close>

fun py_index :: "json \<Rightarrow> string \<Rightarrow> py_error + json" where
  "py_index (JObj d) k = (case map_of d k of None \<Rightarrow> Inl KeyError | Some v \<Rightarrow> Inr v)"
| "py_index _ k = Inl TypeError"

text \<open>
  A dict keyed by JSON values: a list and a dict are unhashable (TypeError), and
  \<^verbatim>\<open>True\<close>/\<^verbatim>\<open>False\<close> are the same keys as 1 and 0.
\<close>

fun hashable :: "json \<Rightarrow> bool" where
  "hashable (JArr xs) = False"
| "hashable (JObj d) = False"
| "hashable _ = True"

fun dict_key :: "json \<Rightarrow> json" where
  "dict_key (JBool b) = JNum (if b then 1 else 0)"
| "dict_key v = v"

type_synonym clip_store = "json \<rightharpoonup> json"

text \<open>A loop whose body can raise: the first raise ends it.\<close>

fun for_each :: "('a \<Rightarrow> 's \<Rightarrow> 'e + 's) \<Rightarrow> 'a list \<Rightarrow> 's \<Rightarrow> 'e + 's" where
  "for_each body [] s = Inr s"
| "for_each body (x # xs) s =
     (case body x s of Inl e \<Rightarrow> Inl e | Inr s' \<Rightarrow> for_each body xs s')"

text \<open>
  \<^verbatim>\<open>load_clips\<close> of \<^verbatim>\<open>eval_cosmos.py\<close>. \<open>extra\<close> is the content of the file given with
  \<^verbatim>\<open>--clips\<close>, if any; \<open>clip_files\<close> are the contents of the \<^verbatim>\<open>clip_*.json\<close> files in
  sorted order; \<open>sessions\<close> is \<open>None\<close> when the sessions directory does not exist, else
  the contents of its \<^verbatim>\<open>eval_session_*.json\<close> files in sorted order.
\<close>

definition extend_or_append :: "json \<Rightarrow> json list \<Rightarrow> json list" where
  "extend_or_append data clips = (case data of JArr cs \<Rightarrow> clips @ cs | _ \<Rightarrow> clips @ [data])"

definition load_clips :: "json option \<Rightarrow> json list \<Rightarrow> json list option \<Rightarrow> json list" where
  "load_clips extra clip_files sessions =
     (case extra of
        Some data \<Rightarrow> (case data of JArr cs \<Rightarrow> cs | _ \<Rightarrow> [data])
      | None \<Rightarrow>
          (let clips = fold extend_or_append clip_files []
           in case sessions of
                None \<Rightarrow> clips
              | Some session_files \<Rightarrow> fold extend_or_append session_files clips))"

text \<open>
  \<^verbatim>\<open>load_clips_by_id\<close> of \<^verbatim>\<open>build_calibration.py\<close>, on the same files. A session file
  that is not a list is skipped here.
\<close>

definition store_clip :: "json \<Rightarrow> clip_store \<Rightarrow> py_error + clip_store" where
  "store_clip clip clips =
     (case py_index clip ''clip_id'' of
        Inl e \<Rightarrow> Inl e
      | Inr cid \<Rightarrow> if hashable cid then Inr (clips(dict_key cid \<mapsto> clip)) else Inl TypeError)"

definition store_clip_file :: "json \<Rightarrow> clip_store \<Rightarrow> py_error + clip_store" where
  "store_clip_file data clips =
     (case data of JArr cs \<Rightarrow> for_each store_clip cs clips | _ \<Rightarrow> store_clip data clips)"

definition store_session_file :: "json \<Rightarrow> clip_store \<Rightarrow> py_error + clip_store" where
  "store_session_file data clips =
     (case data of JArr cs \<Rightarrow> for_each store_clip cs clips | _ \<Rightarrow> Inr clips)"

definition load_clips_by_id :: "json list \<Rightarrow> json list option \<Rightarrow> py_error + clip_store" where
  "load_clips_by_id clip_files sessions =
     (case for_each store_clip_file clip_files Map.empty of
        Inl e \<Rightarrow> Inl e
      | Inr clips \<Rightarrow>
          (case sessions of
             None \<Rightarrow> Inr clips
           | Some session_files \<Rightarrow> for_each store_session_file session_files clips))"

text \<open>\<^verbatim>\<open>clips_by_id.get(key, default)\<close>: looking an unhashable key up raises too.\<close>

definition store_get :: "clip_store \<Rightarrow> json \<Rightarrow> json \<Rightarrow> py_error + json" where
  "store_get clips key dflt =
     (if hashable key
      then Inr (case clips (dict_key key) of None \<Rightarrow> dflt | Some c \<Rightarrow> c)
      else Inl TypeError)"

definition file_clips :: "json \<Rightarrow> json list" where
  "file_clips data = (case data of JArr cs \<Rightarrow> cs | _ \<Rightarrow> [data])"

definition clip_key :: "json \<Rightarrow> json option" where
  "clip_key clip =
     (case py_index clip ''clip_id'' of
        Inl e \<Rightarrow> None
      | Inr cid \<Rightarrow> if hashable cid then Some (dict_key cid) else None)"

fun is_list :: "json \<Rightarrow> bool" where
  "is_list (JArr xs) = True"
| "is_list _ = False"

definition last_with_key :: "json \<Rightarrow> json list \<Rightarrow> json option" where
  "last_with_key k clips =
     (case filter (\<lambda>c. clip_key c = Some k) clips of [] \<Rightarrow> None | ys \<Rightarrow> Some (last ys))"

lemma fold_extend_or_append:
  "fold extend_or_append files acc = acc @ concat (map file_clips files)"
  by (induction files arbitrary: acc)
     (auto simp: extend_or_append_def file_clips_def split: json.splits)

lemma for_each_append:
  "for_each body (xs @ ys) s =
     (case for_each body xs s of Inl e \<Rightarrow> Inl e | Inr s' \<Rightarrow> for_each body ys s')"
  by (induction xs arbitrary: s) (auto split: sum.splits)

lemma store_clip_key:
  "store_clip clip m = Inr m' \<longleftrightarrow> (\<exists>k. clip_key clip = Some k \<and> m' = m(k \<mapsto> clip))"
  by (auto simp: store_clip_def clip_key_def split: sum.splits)

lemma store_clip_file_eq: "store_clip_file data m = for_each store_clip (file_clips data) m"
  by (cases data) (auto simp: store_clip_file_def file_clips_def split: sum.splits)

lemma store_session_file_eq:
  "is_list data \<Longrightarrow> store_session_file data m = for_each store_clip (file_clips data) m"
  by (cases data) (auto simp: store_session_file_def file_clips_def)

lemma for_each_files:
  "for_each store_clip_file files m = for_each store_clip (concat (map file_clips files)) m"
  by (induction files arbitrary: m)
     (auto simp: store_clip_file_eq for_each_append split: sum.splits)

lemma for_each_sessions:
  "\<forall>s \<in> set files. is_list s \<Longrightarrow>
   for_each store_session_file files m = for_each store_clip (concat (map file_clips files)) m"
  by (induction files arbitrary: m)
     (auto simp: store_session_file_eq for_each_append split: sum.splits)

lemma for_each_store_clip_lookup:
  "for_each store_clip cs m = Inr m' \<Longrightarrow>
   m' k = (case filter (\<lambda>c. clip_key c = Some k) cs of [] \<Rightarrow> m k | ys \<Rightarrow> Some (last ys))"
proof (induction cs arbitrary: m)
  case Nil
  then show ?case by simp
next
  case (Cons c cs)
  then obtain m1 where m1: "store_clip c m = Inr m1" and rest: "for_each store_clip cs m1 = Inr m'"
    by (auto split: sum.splits)
  from m1 obtain kc where kc: "clip_key c = Some kc" "m1 = m(kc \<mapsto> c)"
    by (auto simp: store_clip_key)
  from Cons.IH [OF rest] kc show ?case
    by (auto split: list.splits)
qed

lemma for_each_store_clip_total:
  "\<forall>c \<in> set cs. clip_key c \<noteq> None \<Longrightarrow> \<exists>m'. for_each store_clip cs m = Inr m'"
proof (induction cs arbitrary: m)
  case Nil
  then show ?case by simp
next
  case (Cons c cs)
  then obtain k where "clip_key c = Some k" by auto
  then have "store_clip c m = Inr (m(k \<mapsto> c))" by (simp add: store_clip_key)
  with Cons show ?case by simp
qed

lemma load_clips_by_id_eq:
  assumes "\<forall>ss. sessions = Some ss \<longrightarrow> (\<forall>s \<in> set ss. is_list s)"
  shows "load_clips_by_id clip_files sessions
           = for_each store_clip (load_clips None clip_files sessions) Map.empty"
proof (cases sessions)
  case None
  then show ?thesis
    by (simp add: load_clips_by_id_def load_clips_def fold_extend_or_append for_each_files
        split: sum.splits)
next
  case (Some ss)
  with assms have "\<forall>s \<in> set ss. is_list s" by simp
  with Some show ?thesis
    by (auto simp: load_clips_by_id_def load_clips_def fold_extend_or_append for_each_files
        for_each_sessions for_each_append split: sum.splits)
qed

text \<open>
  C8 (as amended). The Evaluation Harness's \<^verbatim>\<open>load_clips\<close> returns the samples of the
  per-clip files followed by those of the session bundles, in load order and unmerged.
  The merge by clip identity is what the Calibration Builder's \<^verbatim>\<open>load_clips_by_id\<close>
  computes from the same files (session files being lists): it returns whenever every
  sample has a hashable \<^verbatim>\<open>clip_id\<close>, and it then maps each ID to the last-loaded sample
  that bears it, so a later-loaded sample overrides an earlier one.
\<close>

theorem load_clips_concatenates_by_id_merges:
  "load_clips None clip_files sessions
     = concat (map file_clips clip_files)
       @ concat (map file_clips (case sessions of None \<Rightarrow> [] | Some ss \<Rightarrow> ss))
   \<and> ((\<forall>ss. sessions = Some ss \<longrightarrow> (\<forall>s \<in> set ss. is_list s)) \<longrightarrow>
        ((\<forall>c \<in> set (load_clips None clip_files sessions). clip_key c \<noteq> None)
            \<longrightarrow> (\<exists>m. load_clips_by_id clip_files sessions = Inr m))
        \<and> (\<forall>m k. load_clips_by_id clip_files sessions = Inr m
            \<longrightarrow> m k = last_with_key k (load_clips None clip_files sessions)))"
proof (intro conjI impI allI)
  show "load_clips None clip_files sessions
     = concat (map file_clips clip_files)
       @ concat (map file_clips (case sessions of None \<Rightarrow> [] | Some ss \<Rightarrow> ss))"
    by (simp add: load_clips_def fold_extend_or_append split: option.splits)
next
  assume lists: "\<forall>ss. sessions = Some ss \<longrightarrow> (\<forall>s \<in> set ss. is_list s)"
    and keys: "\<forall>c \<in> set (load_clips None clip_files sessions). clip_key c \<noteq> None"
  show "\<exists>m. load_clips_by_id clip_files sessions = Inr m"
    unfolding load_clips_by_id_eq [OF lists] by (rule for_each_store_clip_total [OF keys])
next
  fix m k
  assume lists: "\<forall>ss. sessions = Some ss \<longrightarrow> (\<forall>s \<in> set ss. is_list s)"
    and m: "load_clips_by_id clip_files sessions = Inr m"
  from m have "for_each store_clip (load_clips None clip_files sessions) Map.empty = Inr m"
    by (simp add: load_clips_by_id_eq [OF lists])
  from for_each_store_clip_lookup [OF this, of k]
  show "m k = last_with_key k (load_clips None clip_files sessions)"
    by (simp add: last_with_key_def)
qed

theorem load_clips_concatenates_by_id_merges_witness:
  "\<exists>m. load_clips_by_id
         [JObj [(''clip_id'', JStr ''c1''), (''label'', JStr ''NEG_WAVE'')]]
         (Some [JArr [JObj [(''clip_id'', JStr ''c1''), (''label'', JStr ''TP_OPEN_MENU'')]]])
       = Inr m
     \<and> m (JStr ''c1'') = Some (JObj [(''clip_id'', JStr ''c1''), (''label'', JStr ''TP_OPEN_MENU'')])"
proof -
  let ?files = "[JObj [(''clip_id'', JStr ''c1''), (''label'', JStr ''NEG_WAVE'')]]"
  let ?sessions = "Some [JArr [JObj [(''clip_id'', JStr ''c1''), (''label'', JStr ''TP_OPEN_MENU'')]]]"
  note part = load_clips_concatenates_by_id_merges [of ?files ?sessions]
  have loaded: "load_clips None ?files ?sessions =
      [JObj [(''clip_id'', JStr ''c1''), (''label'', JStr ''NEG_WAVE'')],
       JObj [(''clip_id'', JStr ''c1''), (''label'', JStr ''TP_OPEN_MENU'')]]"
    using part by (simp add: file_clips_def)
  have lists: "\<forall>ss. ?sessions = Some ss \<longrightarrow> (\<forall>s \<in> set ss. is_list s)" by simp
  have keys: "\<forall>c \<in> set (load_clips None ?files ?sessions). clip_key c \<noteq> None"
    by (simp add: loaded clip_key_def)
  from part lists keys obtain m where m: "load_clips_by_id ?files ?sessions = Inr m"
    by blast
  with part lists have "m (JStr ''c1'') = last_with_key (JStr ''c1'') (load_clips None ?files ?sessions)"
    by blast
  then have "m (JStr ''c1'') = Some (JObj [(''clip_id'', JStr ''c1''), (''label'', JStr ''TP_OPEN_MENU'')])"
    by (simp add: loaded last_with_key_def clip_key_def)
  with m show ?thesis by blast
qed

text \<open>
  The claim as written fails on the harness: a per-clip file and a session bundle that
  both hold clip \<^verbatim>\<open>c1\<close> leave two entries with that ID in its working set, the earlier
  one first.
\<close>

theorem load_clips_keeps_duplicate_ids:
  "load_clips None
     [JObj [(''clip_id'', JStr ''c1''), (''label'', JStr ''NEG_WAVE'')]]
     (Some [JArr [JObj [(''clip_id'', JStr ''c1''), (''label'', JStr ''TP_OPEN_MENU'')]]])
   = [JObj [(''clip_id'', JStr ''c1''), (''label'', JStr ''NEG_WAVE'')],
      JObj [(''clip_id'', JStr ''c1''), (''label'', JStr ''TP_OPEN_MENU'')]]"
  by (simp add: load_clips_def extend_or_append_def)



section \<open>Calibration Builder (\<^verbatim>\<open>build_calibration.py\<close>)\<close>

definition TP_LABELS :: "string list" where
  "TP_LABELS = [''TP_OPEN_MENU'', ''TP_CLOSE_MENU'', ''TP_SWITCH_RIGHT'', ''TP_SWITCH_LEFT'']"

definition LABEL_TO_INTENT :: "string \<rightharpoonup> string" where
  "LABEL_TO_INTENT = map_of
     [(''TP_OPEN_MENU'', ''OPEN_MENU''),
      (''TP_CLOSE_MENU'', ''CLOSE_MENU''),
      (''TP_SWITCH_RIGHT'', ''SWITCH_RIGHT''),
      (''TP_SWITCH_LEFT'', ''SWITCH_LEFT'')]"

text \<open>The dict appended to \<^verbatim>\<open>accepted\<close>, one line of \<^verbatim>\<open>calibration.jsonl\<close>.\<close>

record calib_record =
  cr_clip_id :: json
  cr_features :: json
  cr_gesture_type :: json
  cr_label :: int
  cr_user_label :: json
  cr_cosmos_intent :: json

datatype outcome = Accepted calib_record | SkippedError | SkippedDisagree | SkippedNoFeat

text \<open>
  The tail of the loop body, after a label was assigned: the clip must exist, be truthy
  and hold truthy \<^verbatim>\<open>features\<close>.
\<close>

definition require_features ::
  "clip_store \<Rightarrow> json \<Rightarrow> json \<Rightarrow> int \<Rightarrow> json \<Rightarrow> json \<Rightarrow> py_error + outcome" where
  "require_features clips r user_label label_int gesture_type cosmos_intent =
     (case py_index r ''clip_id'' of
        Inl e \<Rightarrow> Inl e
      | Inr cid \<Rightarrow>
     (case store_get clips cid JNull of
        Inl e \<Rightarrow> Inl e
      | Inr clip \<Rightarrow>
          if \<not> truthy clip then Inr SkippedNoFeat
          else
            (case py_get clip ''features'' JNull of
               Inl e \<Rightarrow> Inl e
             | Inr features \<Rightarrow>
                 if \<not> truthy features then Inr SkippedNoFeat
                 else Inr (Accepted
                   \<lparr>cr_clip_id = cid, cr_features = features, cr_gesture_type = gesture_type,
                    cr_label = label_int, cr_user_label = user_label,
                    cr_cosmos_intent = cosmos_intent\<rparr>))))"

text \<open>
  The loop body of \<^verbatim>\<open>main\<close> for one result \<open>r\<close>. \<^verbatim>\<open>user_label in TP_LABELS\<close> hashes the
  label (TypeError on a list or a dict) and \<^verbatim>\<open>user_label.startswith\<close> needs a
  \<^verbatim>\<open>str\<close> (AttributeError otherwise).
\<close>

definition process_result :: "clip_store \<Rightarrow> json \<Rightarrow> py_error + outcome" where
  "process_result clips r =
     (case py_get r ''cosmos_error'' JNull of
        Inl e \<Rightarrow> Inl e
      | Inr cosmos_error \<Rightarrow>
          if truthy cosmos_error then Inr SkippedError
          else
            (case r of
               JObj d \<Rightarrow>
                 (let user_label = dict_get d ''user_label'' (JStr []);
                      cosmos_intl = dict_get d ''cosmos_intentional'' JNull;
                      cosmos_intent = dict_get d ''cosmos_final_intent'' JNull
                  in case user_label of
                       JStr s \<Rightarrow>
                         if s \<in> set TP_LABELS then
                           (case LABEL_TO_INTENT s of
                              None \<Rightarrow> Inl KeyError
                            | Some expected_intent \<Rightarrow>
                                if \<not> (cosmos_intl = JBool True
                                        \<and> cosmos_intent = JStr expected_intent)
                                then Inr SkippedDisagree
                                else require_features clips r user_label 1
                                       (JStr expected_intent) cosmos_intent)
                         else if take 4 s = ''NEG_'' then
                           (if cosmos_intl \<noteq> JBool False then Inr SkippedDisagree
                            else
                              (case py_index r ''clip_id'' of
                                 Inl e \<Rightarrow> Inl e
                               | Inr cid \<Rightarrow>
                              (case store_get clips cid (JObj []) of
                                 Inl e \<Rightarrow> Inl e
                               | Inr clip \<Rightarrow>
                              (case py_get clip ''gesture_detected'' JNull of
                                 Inl e \<Rightarrow> Inl e
                               | Inr detected \<Rightarrow>
                                   require_features clips r user_label 0
                                     (py_or detected (JStr ''SWITCH_RIGHT'')) cosmos_intent))))
                         else Inr SkippedDisagree
                     | JArr xs \<Rightarrow> Inl TypeError
                     | JObj kvs \<Rightarrow> Inl TypeError
                     | _ \<Rightarrow> Inl AttributeError)
             | _ \<Rightarrow> Inl AttributeError))"

record calib_counts =
  accepted :: "calib_record list"
  skipped_error :: nat
  skipped_disagree :: nat
  skipped_no_feat :: nat

definition tally :: "outcome \<Rightarrow> calib_counts \<Rightarrow> calib_counts" where
  "tally out c =
     (case out of
        Accepted rec \<Rightarrow> c\<lparr>accepted := accepted c @ [rec]\<rparr>
      | SkippedError \<Rightarrow> c\<lparr>skipped_error := skipped_error c + 1\<rparr>
      | SkippedDisagree \<Rightarrow> c\<lparr>skipped_disagree := skipped_disagree c + 1\<rparr>
      | SkippedNoFeat \<Rightarrow> c\<lparr>skipped_no_feat := skipped_no_feat c + 1\<rparr>)"

definition count_result :: "clip_store \<Rightarrow> json \<Rightarrow> calib_counts \<Rightarrow> py_error + calib_counts" where
  "count_result clips r c =
     (case process_result clips r of Inl e \<Rightarrow> Inl e | Inr out \<Rightarrow> Inr (tally out c))"

text \<open>The loop of \<^verbatim>\<open>main\<close> over \<^verbatim>\<open>results\<close>, from the four initial values.\<close>

definition build_calibration :: "clip_store \<Rightarrow> json list \<Rightarrow> py_error + calib_counts" where
  "build_calibration clips results =
     for_each (count_result clips) results
       \<lparr>accepted = [], skipped_error = 0, skipped_disagree = 0, skipped_no_feat = 0\<rparr>"


definition accepted_of :: "outcome list \<Rightarrow> calib_record list" where
  "accepted_of outs = List.map_filter (\<lambda>out. case out of Accepted rec \<Rightarrow> Some rec | _ \<Rightarrow> None) outs"

definition well_formed_result :: "json \<Rightarrow> bool" where
  "well_formed_result r =
     (case r of
        JObj d \<Rightarrow>
          (case dict_get d ''user_label'' (JStr []) of JStr s \<Rightarrow> True | _ \<Rightarrow> False)
          \<and> (case map_of d ''clip_id'' of Some cid \<Rightarrow> hashable cid | None \<Rightarrow> False)
      | _ \<Rightarrow> False)"

definition has_feature_bag :: "clip_store \<Rightarrow> (string \<times> json) list \<Rightarrow> bool" where
  "has_feature_bag clips d =
     (case map_of d ''clip_id'' of
        None \<Rightarrow> False
      | Some cid \<Rightarrow>
          hashable cid \<and>
          (case clips (dict_key cid) of
             Some (JObj c) \<Rightarrow> c \<noteq> [] \<and> truthy (dict_get c ''features'' JNull)
           | _ \<Rightarrow> False))"

lemma require_features_accepts:
  "(\<exists>rec. require_features clips (JObj d) ul l g ci = Inr (Accepted rec) \<and> cr_label rec = l')
     \<longleftrightarrow> has_feature_bag clips d \<and> l = l'"
  by (auto simp: require_features_def has_feature_bag_def store_get_def
      split: option.splits sum.splits json.splits if_splits)

lemma neg_branch_accepts:
  "(\<exists>rec. (case py_index (JObj d) ''clip_id'' of
             Inl e \<Rightarrow> Inl e
           | Inr cid \<Rightarrow>
          (case store_get clips cid (JObj []) of
             Inl e \<Rightarrow> Inl e
           | Inr clip \<Rightarrow>
          (case py_get clip ''gesture_detected'' JNull of
             Inl e \<Rightarrow> Inl e
           | Inr detected \<Rightarrow>
               require_features clips (JObj d) ul l
                 (py_or detected (JStr ''SWITCH_RIGHT'')) ci))) = Inr (Accepted rec)
          \<and> cr_label rec = l')
     \<longleftrightarrow> has_feature_bag clips d \<and> l = l'"
proof (cases "has_feature_bag clips d")
  case True
  then obtain cid c where "map_of d ''clip_id'' = Some cid" "hashable cid"
    "clips (dict_key cid) = Some (JObj c)"
    by (auto simp: has_feature_bag_def split: option.splits json.splits)
  then show ?thesis
    using require_features_accepts [where d=d and clips=clips and ul=ul and l=l and l'=l'] True
    by (simp add: store_get_def)
next
  case False
  then show ?thesis
    using require_features_accepts [where d=d and clips=clips and ul=ul and l=l and l'=l']
    by (auto split: sum.splits option.splits)
qed

lemma tp_not_neg: "s \<in> set TP_LABELS \<Longrightarrow> take 4 s \<noteq> ''NEG_''"
  by (auto simp: TP_LABELS_def)

lemma tp_intent: "s \<in> set TP_LABELS \<Longrightarrow> \<exists>e. LABEL_TO_INTENT s = Some e"
  by (auto simp: TP_LABELS_def LABEL_TO_INTENT_def)

lemma process_result_label:
  assumes "\<not> truthy (dict_get d ''cosmos_error'' JNull)"
  shows "(\<exists>rec. process_result clips (JObj d) = Inr (Accepted rec) \<and> cr_label rec = l)
     \<longleftrightarrow> has_feature_bag clips d \<and>
         ((l = 1 \<and> (\<exists>s e. dict_get d ''user_label'' (JStr []) = JStr s \<and> s \<in> set TP_LABELS
                      \<and> LABEL_TO_INTENT s = Some e
                      \<and> dict_get d ''cosmos_intentional'' JNull = JBool True
                      \<and> dict_get d ''cosmos_final_intent'' JNull = JStr e))
          \<or> (l = 0 \<and> (\<exists>s. dict_get d ''user_label'' (JStr []) = JStr s \<and> take 4 s = ''NEG_''
                      \<and> dict_get d ''cosmos_intentional'' JNull = JBool False)))"
proof (cases "dict_get d ''user_label'' (JStr [])")
  case (JStr s)
  show ?thesis
  proof (cases "s \<in> set TP_LABELS")
    case True
    from tp_intent [OF True] obtain e where e: "LABEL_TO_INTENT s = Some e" ..
    show ?thesis
      using assms True e tp_not_neg [OF True]
        require_features_accepts [where d=d and clips=clips and ul="JStr s" and l=1 and l'=l]
      by (auto simp: process_result_def Let_def JStr)
  next
    case False
    show ?thesis
      using assms False
        neg_branch_accepts [where d=d and clips=clips and ul="JStr s" and l=0 and l'=l]
      by (auto simp: process_result_def Let_def JStr simp del: py_index.simps)
  qed
qed (use assms in \<open>simp_all add: process_result_def Let_def\<close>)

text \<open>
  C2. For a result with no teacher-error flag, the builder emits a record with label 1
  iff the human label is one of the four \<^verbatim>\<open>TP_*\<close> labels, the teacher's intentional flag
  is \<^verbatim>\<open>True\<close> and its final intent is the label's mapped intent, and the result's clip
  holds a feature bag; it emits a record with label 0 iff the label starts with \<^verbatim>\<open>NEG_\<close>,
  the intentional flag is \<^verbatim>\<open>False\<close>, and the clip holds a feature bag. No other label is
  ever emitted, and without a feature bag nothing is emitted whatever the agreement.
\<close>

theorem calibration_acceptance_rule:
  assumes "\<not> truthy (dict_get d ''cosmos_error'' JNull)"
  shows "((\<exists>rec. process_result clips (JObj d) = Inr (Accepted rec) \<and> cr_label rec = 1)
           \<longleftrightarrow> (\<exists>s e. dict_get d ''user_label'' (JStr []) = JStr s \<and> s \<in> set TP_LABELS
                    \<and> LABEL_TO_INTENT s = Some e
                    \<and> dict_get d ''cosmos_intentional'' JNull = JBool True
                    \<and> dict_get d ''cosmos_final_intent'' JNull = JStr e)
               \<and> has_feature_bag clips d)
       \<and> ((\<exists>rec. process_result clips (JObj d) = Inr (Accepted rec) \<and> cr_label rec = 0)
           \<longleftrightarrow> (\<exists>s. dict_get d ''user_label'' (JStr []) = JStr s \<and> take 4 s = ''NEG_''
                    \<and> dict_get d ''cosmos_intentional'' JNull = JBool False)
               \<and> has_feature_bag clips d)
       \<and> (\<forall>rec. process_result clips (JObj d) = Inr (Accepted rec)
             \<longrightarrow> cr_label rec = 1 \<or> cr_label rec = 0)
       \<and> (\<not> has_feature_bag clips d
             \<longrightarrow> (\<forall>rec. process_result clips (JObj d) \<noteq> Inr (Accepted rec)))"
proof (intro conjI allI impI)
  show "(\<exists>rec. process_result clips (JObj d) = Inr (Accepted rec) \<and> cr_label rec = 1)
           \<longleftrightarrow> (\<exists>s e. dict_get d ''user_label'' (JStr []) = JStr s \<and> s \<in> set TP_LABELS
                    \<and> LABEL_TO_INTENT s = Some e
                    \<and> dict_get d ''cosmos_intentional'' JNull = JBool True
                    \<and> dict_get d ''cosmos_final_intent'' JNull = JStr e)
               \<and> has_feature_bag clips d"
    using process_result_label [OF assms, of clips 1] by auto
  show "(\<exists>rec. process_result clips (JObj d) = Inr (Accepted rec) \<and> cr_label rec = 0)
           \<longleftrightarrow> (\<exists>s. dict_get d ''user_label'' (JStr []) = JStr s \<and> take 4 s = ''NEG_''
                    \<and> dict_get d ''cosmos_intentional'' JNull = JBool False)
               \<and> has_feature_bag clips d"
    using process_result_label [OF assms, of clips 0] by auto
next
  fix rec
  assume "process_result clips (JObj d) = Inr (Accepted rec)"
  then show "cr_label rec = 1 \<or> cr_label rec = 0"
    using process_result_label [OF assms, of clips "cr_label rec"] by auto
next
  fix rec
  assume "\<not> has_feature_bag clips d"
  then show "process_result clips (JObj d) \<noteq> Inr (Accepted rec)"
    using process_result_label [OF assms, of clips "cr_label rec"] by auto
qed

theorem calibration_acceptance_rule_witness:
  "(\<exists>rec. process_result
       [JStr ''c1'' \<mapsto> JObj [(''clip_id'', JStr ''c1''),
                               (''features'', JObj [(''wristX'', JNum 1)])]]
       (JObj [(''clip_id'', JStr ''c1''), (''user_label'', JStr ''TP_OPEN_MENU''),
              (''cosmos_intentional'', JBool True),
              (''cosmos_final_intent'', JStr ''OPEN_MENU''),
              (''cosmos_error'', JBool False)])
     = Inr (Accepted rec) \<and> cr_label rec = 1)"
proof -
  let ?clips = "[JStr ''c1'' \<mapsto> JObj [(''clip_id'', JStr ''c1''),
                                       (''features'', JObj [(''wristX'', JNum 1)])]]"
  let ?d = "[(''clip_id'', JStr ''c1''), (''user_label'', JStr ''TP_OPEN_MENU''),
             (''cosmos_intentional'', JBool True),
             (''cosmos_final_intent'', JStr ''OPEN_MENU''),
             (''cosmos_error'', JBool False)]"
  have no_error: "\<not> truthy (dict_get ?d ''cosmos_error'' JNull)"
    by (simp add: dict_get_def)
  have agree: "\<exists>s e. dict_get ?d ''user_label'' (JStr []) = JStr s \<and> s \<in> set TP_LABELS
      \<and> LABEL_TO_INTENT s = Some e
      \<and> dict_get ?d ''cosmos_intentional'' JNull = JBool True
      \<and> dict_get ?d ''cosmos_final_intent'' JNull = JStr e"
    by (simp add: dict_get_def TP_LABELS_def LABEL_TO_INTENT_def)
  have bag: "has_feature_bag ?clips ?d"
    by (simp add: has_feature_bag_def dict_get_def)
  from calibration_acceptance_rule [OF no_error, of ?clips, THEN conjunct1] agree bag
  show ?thesis by blast
qed

lemma for_each_collect:
  "for_each (count_result clips) rs c = Inr c' \<Longrightarrow>
     \<exists>outs. collect (map (process_result clips) rs) = Inr outs \<and> c' = fold tally outs c"
proof (induction rs arbitrary: c)
  case Nil
  then show ?case by simp
next
  case (Cons r rs)
  then obtain c1 where c1: "count_result clips r c = Inr c1"
    and rest1: "for_each (count_result clips) rs c1 = Inr c'"
    by (auto split: sum.splits)
  from c1 obtain out where out: "process_result clips r = Inr out" and "c1 = tally out c"
    by (auto simp: count_result_def split: sum.splits)
  with rest1 have rest: "for_each (count_result clips) rs (tally out c) = Inr c'" by simp
  from Cons.IH [OF rest] obtain outs where
    "collect (map (process_result clips) rs) = Inr outs" "c' = fold tally outs (tally out c)"
    by blast
  with out show ?case by simp
qed

lemma fold_tally_accepted:
  "accepted (fold tally outs c) = accepted c @ accepted_of outs"
  by (induction outs arbitrary: c)
     (auto simp: tally_def accepted_of_def List.map_filter_simps split: outcome.splits)

lemma fold_tally_error:
  "skipped_error (fold tally outs c) = skipped_error c + count_list outs SkippedError"
  by (induction outs arbitrary: c) (auto simp: tally_def split: outcome.splits)

lemma fold_tally_disagree:
  "skipped_disagree (fold tally outs c) = skipped_disagree c + count_list outs SkippedDisagree"
  by (induction outs arbitrary: c) (auto simp: tally_def split: outcome.splits)

lemma fold_tally_no_feat:
  "skipped_no_feat (fold tally outs c) = skipped_no_feat c + count_list outs SkippedNoFeat"
  by (induction outs arbitrary: c) (auto simp: tally_def split: outcome.splits)

lemma outcomes_partition:
  "length (accepted_of outs) + count_list outs SkippedError + count_list outs SkippedDisagree
     + count_list outs SkippedNoFeat = length outs"
  by (induction outs)
     (auto simp: accepted_of_def List.map_filter_simps split: outcome.splits)

lemma require_features_total:
  assumes "py_index r ''clip_id'' = Inr cid" and "hashable cid"
    and "\<forall>k c. clips k = Some c \<longrightarrow> is_dict c"
  shows "\<exists>out. require_features clips r ul l g ci = Inr out"
proof (cases "clips (dict_key cid)")
  case None
  with assms(1,2) show ?thesis by (simp add: require_features_def store_get_def)
next
  case (Some c)
  with assms(3) have "is_dict c" by blast
  then obtain kvs where "c = JObj kvs" by (cases c) auto
  with Some assms(1,2) show ?thesis by (simp add: require_features_def store_get_def)
qed

lemma process_result_total:
  assumes wf: "well_formed_result r" and dicts: "\<forall>k c. clips k = Some c \<longrightarrow> is_dict c"
  shows "\<exists>out. process_result clips r = Inr out"
proof -
  from wf obtain d s cid where r: "r = JObj d"
    and s: "dict_get d ''user_label'' (JStr []) = JStr s"
    and cid: "map_of d ''clip_id'' = Some cid" "hashable cid"
    by (auto simp: well_formed_result_def split: json.splits option.splits)
  from cid r have idx: "py_index r ''clip_id'' = Inr cid" by simp
  note rf = require_features_total [OF idx cid(2) dicts]
  have tp: "\<exists>e. LABEL_TO_INTENT s = Some e" if "s \<in> set TP_LABELS"
    using that by (auto simp: TP_LABELS_def LABEL_TO_INTENT_def)
  have neg: "\<exists>clip. store_get clips cid (JObj []) = Inr clip \<and> is_dict clip"
    using cid(2) dicts by (auto simp: store_get_def split: option.splits)
  then obtain clip kvs where clip: "store_get clips cid (JObj []) = Inr clip" "clip = JObj kvs"
    by (metis is_dict.elims(2))
  show ?thesis
    using rf tp
    by (auto simp: process_result_def Let_def r s idx[unfolded r] clip
        simp del: py_index.simps split: option.splits)
qed

lemma for_each_total:
  "(\<And>x s. x \<in> set xs \<Longrightarrow> \<exists>s'. body x s = Inr s') \<Longrightarrow> \<exists>s'. for_each body xs s = Inr s'"
proof (induction xs arbitrary: s)
  case Nil
  then show ?case by simp
next
  case (Cons x xs)
  from Cons.prems [of x s] obtain s1 where "body x s = Inr s1" by auto
  moreover from Cons.IH [of s1] Cons.prems obtain s2 where "for_each body xs s1 = Inr s2"
    by auto
  ultimately show ?case by simp
qed

text \<open>
  C9. When the builder's loop completes, every result has been counted in exactly one of
  accepted, teacher-error, disagreement and missing-feature: each counter is the number of
  results with that outcome and the four add up to the number of results. A result with
  no error flag whose label is neither a \<^verbatim>\<open>TP_*\<close> label nor starts with \<^verbatim>\<open>NEG_\<close> is a
  disagreement. The loop completes whenever every result is a dict with a string label
  and a hashable \<^verbatim>\<open>clip_id\<close>, and every stored clip is a dict.
\<close>

theorem build_calibration_counters_partition:
  "(\<forall>c. build_calibration clips results = Inr c \<longrightarrow>
      length (accepted c) + skipped_error c + skipped_disagree c + skipped_no_feat c
        = length results
      \<and> (\<exists>outs. collect (map (process_result clips) results) = Inr outs
            \<and> accepted c = accepted_of outs
            \<and> skipped_error c = count_list outs SkippedError
            \<and> skipped_disagree c = count_list outs SkippedDisagree
            \<and> skipped_no_feat c = count_list outs SkippedNoFeat))
   \<and> (\<forall>d s. \<not> truthy (dict_get d ''cosmos_error'' JNull)
        \<longrightarrow> dict_get d ''user_label'' (JStr []) = JStr s
        \<longrightarrow> s \<notin> set TP_LABELS \<longrightarrow> take 4 s \<noteq> ''NEG_''
        \<longrightarrow> process_result clips (JObj d) = Inr SkippedDisagree)
   \<and> ((\<forall>r \<in> set results. well_formed_result r) \<and> (\<forall>k c. clips k = Some c \<longrightarrow> is_dict c)
        \<longrightarrow> (\<exists>c. build_calibration clips results = Inr c))"
proof (intro conjI allI impI)
  fix c
  assume run: "build_calibration clips results = Inr c"
  let ?c0 = "\<lparr>accepted = [], skipped_error = 0, skipped_disagree = 0, skipped_no_feat = 0\<rparr>"
  from run for_each_collect [of clips results ?c0 c]
  obtain outs where outs: "collect (map (process_result clips) results) = Inr outs"
    and c: "c = fold tally outs ?c0"
    by (auto simp: build_calibration_def)
  have fields: "accepted c = accepted_of outs"
    "skipped_error c = count_list outs SkippedError"
    "skipped_disagree c = count_list outs SkippedDisagree"
    "skipped_no_feat c = count_list outs SkippedNoFeat"
    by (simp_all add: c fold_tally_accepted fold_tally_error fold_tally_disagree
        fold_tally_no_feat)
  from collect_length [OF outs] have "length outs = length results" by simp
  with outcomes_partition [of outs] fields
  show "length (accepted c) + skipped_error c + skipped_disagree c + skipped_no_feat c
          = length results"
    by simp
  from outs fields
  show "\<exists>outs. collect (map (process_result clips) results) = Inr outs
            \<and> accepted c = accepted_of outs
            \<and> skipped_error c = count_list outs SkippedError
            \<and> skipped_disagree c = count_list outs SkippedDisagree
            \<and> skipped_no_feat c = count_list outs SkippedNoFeat"
    by blast
next
  fix d s
  assume "\<not> truthy (dict_get d ''cosmos_error'' JNull)"
    "dict_get d ''user_label'' (JStr []) = JStr s" "s \<notin> set TP_LABELS" "take 4 s \<noteq> ''NEG_''"
  then show "process_result clips (JObj d) = Inr SkippedDisagree"
    by (simp add: process_result_def Let_def)
next
  assume wf: "(\<forall>r \<in> set results. well_formed_result r) \<and> (\<forall>k c. clips k = Some c \<longrightarrow> is_dict c)"
  have "\<exists>c'. count_result clips r c = Inr c'" if "r \<in> set results" for r c
    using process_result_total [of r clips] wf that by (auto simp: count_result_def)
  then show "\<exists>c. build_calibration clips results = Inr c"
    unfolding build_calibration_def by (intro for_each_total) blast
qed

theorem build_calibration_counters_partition_witness:
  "\<exists>c. build_calibration
         [JStr ''c1'' \<mapsto> JObj [(''clip_id'', JStr ''c1''),
                                 (''features'', JObj [(''wristX'', JNum 1)])]]
         [JObj [(''clip_id'', JStr ''c1''), (''user_label'', JStr ''TP_OPEN_MENU''),
                (''cosmos_intentional'', JBool True),
                (''cosmos_final_intent'', JStr ''OPEN_MENU'')],
          JObj [(''clip_id'', JStr ''c2''), (''user_label'', JStr ''NEG_WAVE''),
                (''cosmos_intentional'', JBool False)],
          JObj [(''clip_id'', JStr ''c3''), (''user_label'', JStr ''WAVE''),
                (''cosmos_intentional'', JBool False)],
          JObj [(''clip_id'', JStr ''c4''), (''user_label'', JStr ''NEG_WAVE''),
                (''cosmos_error'', JBool True)]]
       = Inr c
     \<and> length (accepted c) + skipped_error c + skipped_disagree c + skipped_no_feat c = 4"
proof -
  let ?clips = "[JStr ''c1'' \<mapsto> JObj [(''clip_id'', JStr ''c1''),
                                       (''features'', JObj [(''wristX'', JNum 1)])]]"
  let ?results =
    "[JObj [(''clip_id'', JStr ''c1''), (''user_label'', JStr ''TP_OPEN_MENU''),
            (''cosmos_intentional'', JBool True),
            (''cosmos_final_intent'', JStr ''OPEN_MENU'')],
      JObj [(''clip_id'', JStr ''c2''), (''user_label'', JStr ''NEG_WAVE''),
            (''cosmos_intentional'', JBool False)],
      JObj [(''clip_id'', JStr ''c3''), (''user_label'', JStr ''WAVE''),
            (''cosmos_intentional'', JBool False)],
      JObj [(''clip_id'', JStr ''c4''), (''user_label'', JStr ''NEG_WAVE''),
            (''cosmos_error'', JBool True)]]"
  have wf: "\<forall>r \<in> set ?results. well_formed_result r"
    by (simp add: well_formed_result_def dict_get_def)
  have dicts: "\<forall>k c. ?clips k = Some c \<longrightarrow> is_dict c"
    by (auto split: if_splits)
  note part = build_calibration_counters_partition [of ?clips ?results]
  from part wf dicts obtain c where c: "build_calibration ?clips ?results = Inr c"
    by blast
  with part have "length (accepted c) + skipped_error c + skipped_disagree c
      + skipped_no_feat c = length ?results"
    by blast
  with c show ?thesis by simp
qed



section \<open>Label Distiller (\<^verbatim>\<open>load_labeled_events\<close> of \<^verbatim>\<open>train_student.py\<close>)\<close>

text \<open>
  A line of a \<^verbatim>\<open>verifier_events.jsonl\<close> file, as the loop sees it: empty after
  \<^verbatim>\<open>strip()\<close>, rejected by \<^verbatim>\<open>json.loads\<close>, or parsed.
\<close>

datatype log_line = Blank | Malformed | Parsed json

text \<open>The dict appended to \<^verbatim>\<open>events\<close>.\<close>

record labeled_event =
  ev_features :: json
  ev_gesture_type :: json
  ev_label :: int
  ev_cosmos_conf :: json
  ev_reason :: json
  ev_event_id :: json

text \<open>
  \<^verbatim>\<open>x < c\<close> for a float constant \<open>c\<close>: numbers and bools compare, everything else raises
  TypeError.
\<close>

fun py_less_float :: "json \<Rightarrow> real \<Rightarrow> py_error + bool" where
  "py_less_float (JNum x) c = Inr (x < c)"
| "py_less_float (JBool b) c = Inr ((if b then 1 else 0) < c)"
| "py_less_float _ c = Inl TypeError"

text \<open>\<^verbatim>\<open>int(bool(x))\<close>.\<close>

definition int_bool :: "json \<Rightarrow> int" where
  "int_bool x = (if truthy x then 1 else 0)"

text \<open>
  The loop body for one parsed record: \<open>Inr None\<close> is \<^verbatim>\<open>continue\<close>, \<open>Inr (Some e)\<close> is
  the appended event.
\<close>

definition distill_record :: "json \<Rightarrow> py_error + labeled_event option" where
  "distill_record record =
     (case py_get record ''response_json'' JNull of
        Inl e \<Rightarrow> Inl e
      | Inr response_json \<Rightarrow>
     (case py_get record ''features'' JNull of
        Inl e \<Rightarrow> Inl e
      | Inr features \<Rightarrow>
          let resp = py_or response_json (JObj [])
          in if \<not> truthy features \<or> \<not> truthy resp then Inr None
             else
     (case py_get resp ''schema_valid'' (JBool True) of
        Inl e \<Rightarrow> Inl e
      | Inr schema_valid \<Rightarrow>
          if \<not> truthy schema_valid then Inr None
          else
     (case py_get resp ''confidence'' (JNum 0) of
        Inl e \<Rightarrow> Inl e
      | Inr cosmos_conf \<Rightarrow>
     (case py_get resp ''reason_category'' (JStr ''unknown'') of
        Inl e \<Rightarrow> Inl e
      | Inr reason \<Rightarrow>
     (case py_get resp ''intentional'' JNull of
        Inl e \<Rightarrow> Inl e
      | Inr intentional \<Rightarrow>
     (case py_get features ''gestureType'' JNull of
        Inl e \<Rightarrow> Inl e
      | Inr feature_type \<Rightarrow>
     (case py_get record ''proposed_intent'' JNull of
        Inl e \<Rightarrow> Inl e
      | Inr proposed_intent \<Rightarrow>
          let gesture_type = py_or feature_type proposed_intent
          in
     (case py_less_float cosmos_conf (3/4) of
        Inl e \<Rightarrow> Inl e
      | Inr low \<Rightarrow>
          if low then Inr None
          else if reason = JStr ''unknown'' then Inr None
          else if intentional = JNull \<or> gesture_type = JNull then Inr None
          else
     (case py_get record ''event_id'' (JStr []) of
        Inl e \<Rightarrow> Inl e
      | Inr event_id \<Rightarrow>
          Inr (Some \<lparr>ev_features = features, ev_gesture_type = gesture_type,
                     ev_label = int_bool intentional, ev_cosmos_conf = cosmos_conf,
                     ev_reason = reason, ev_event_id = event_id\<rparr>)))))))))))"

definition distill_line :: "log_line \<Rightarrow> labeled_event list \<Rightarrow> py_error + labeled_event list" where
  "distill_line line events =
     (case line of
        Blank \<Rightarrow> Inr events
      | Malformed \<Rightarrow> Inr events
      | Parsed record \<Rightarrow>
          (case distill_record record of
             Inl e \<Rightarrow> Inl e
           | Inr None \<Rightarrow> Inr events
           | Inr (Some ev) \<Rightarrow> Inr (events @ [ev])))"

text \<open>How a script ends when it does not return: \<^verbatim>\<open>sys.exit(n)\<close> or an exception.\<close>

datatype failure = SysExit nat | Raised py_error

text \<open>
  \<^verbatim>\<open>load_labeled_events\<close>: \<open>logs\<close> are the lines of every \<^verbatim>\<open>verifier_events.jsonl\<close> found
  under the repository.
\<close>

definition load_labeled_events :: "log_line list list \<Rightarrow> failure + labeled_event list" where
  "load_labeled_events logs =
     (if logs = [] then Inl (SysExit 1)
      else case for_each (\<lambda>path events. for_each distill_line path events) logs [] of
             Inl e \<Rightarrow> Inl (Raised e)
           | Inr events \<Rightarrow> Inr events)"

text \<open>
  For comparison with the code, the label in the words of the data model: "1 iff the
  teacher asserted intentional for the matching positive intent; 0 otherwise", the matching
  intent being the event's gesture type.
\<close>

definition spec_label :: "(string \<times> json) list \<Rightarrow> json \<Rightarrow> int" where
  "spec_label resp gesture_type =
     (if dict_get resp ''intentional'' JNull = JBool True
         \<and> dict_get resp ''final_intent'' JNull = gesture_type
         \<and> gesture_type \<in> JStr ` set GESTURE_TYPES
      then 1 else 0)"

lemma distill_record_label:
  assumes "distill_record record = Inr (Some ev)"
  shows "\<exists>d resp. record = JObj d \<and> dict_get d ''response_json'' JNull = JObj resp
           \<and> dict_get resp ''intentional'' JNull \<noteq> JNull
           \<and> ev_label ev = int_bool (dict_get resp ''intentional'' JNull)
           \<and> ev_gesture_type ev = py_or (case dict_get d ''features'' JNull of
                                            JObj f \<Rightarrow> dict_get f ''gestureType'' JNull
                                          | _ \<Rightarrow> JNull)
                                       (dict_get d ''proposed_intent'' JNull)"
proof -
  from assms obtain d where d: "record = JObj d"
    by (cases "record") (auto simp: distill_record_def)
  from assms d have tr: "truthy (py_or (dict_get d ''response_json'' JNull) (JObj []))"
    by (auto simp: distill_record_def Let_def split: if_splits)
  then have tr': "truthy (dict_get d ''response_json'' JNull)"
    by (auto simp: py_or_def split: if_splits)
  with assms d obtain resp where resp: "dict_get d ''response_json'' JNull = JObj resp"
    by (cases "dict_get d ''response_json'' JNull")
       (auto simp: distill_record_def Let_def py_or_def split: if_splits)
  from assms d obtain f where f: "dict_get d ''features'' JNull = JObj f"
    using tr' resp
    by (cases "dict_get d ''features'' JNull")
       (auto simp: distill_record_def Let_def py_or_def split: if_splits sum.splits)
  from assms show ?thesis
    using tr'
    by (auto simp: distill_record_def Let_def d resp f py_or_def
        split: if_splits sum.splits)
qed

text \<open>
  C3 (as amended). For every production log record the distiller accepts, the teacher's
  \<^verbatim>\<open>intentional\<close> field is present and the event's label is \<^verbatim>\<open>int(bool(intentional))\<close>:
  1 iff that flag is truthy, 0 otherwise. The verdict's final intent takes no part.
\<close>

theorem distilled_label_is_intentional_flag:
  assumes "distill_record record = Inr (Some ev)"
  shows "\<exists>d resp. record = JObj d \<and> dict_get d ''response_json'' JNull = JObj resp
           \<and> dict_get resp ''intentional'' JNull \<noteq> JNull
           \<and> (ev_label ev = 1 \<longleftrightarrow> truthy (dict_get resp ''intentional'' JNull))
           \<and> (ev_label ev = 0 \<longleftrightarrow> \<not> truthy (dict_get resp ''intentional'' JNull))"
proof -
  from distill_record_label [OF assms] obtain d resp where
    "record = JObj d" "dict_get d ''response_json'' JNull = JObj resp"
    "dict_get resp ''intentional'' JNull \<noteq> JNull"
    "ev_label ev = int_bool (dict_get resp ''intentional'' JNull)"
    by blast
  then show ?thesis by (auto simp: int_bool_def)
qed

theorem distilled_label_is_intentional_flag_witness:
  "\<exists>ev. distill_record
       (JObj [(''event_id'', JStr ''e1''), (''proposed_intent'', JStr ''OPEN_MENU''),
              (''response_json'',
                 JObj [(''final_intent'', JStr ''NONE''), (''intentional'', JBool False),
                       (''confidence'', JNum (9/10)),
                       (''reason_category'', JStr ''self_grooming'')]),
              (''features'', JObj [(''wristX'', JNum (1/2))])])
     = Inr (Some ev) \<and> ev_label ev = 0"
proof -
  let ?resp = "[(''final_intent'', JStr ''NONE''), (''intentional'', JBool False),
                (''confidence'', JNum (9/10)), (''reason_category'', JStr ''self_grooming'')]"
  let ?d = "[(''event_id'', JStr ''e1''), (''proposed_intent'', JStr ''OPEN_MENU''),
             (''response_json'', JObj ?resp),
             (''features'', JObj [(''wristX'', JNum (1/2))])]"
  have "\<exists>ev. distill_record (JObj ?d) = Inr (Some ev)"
    by (simp add: distill_record_def Let_def dict_get_def py_or_def)
  then obtain ev where ev: "distill_record (JObj ?d) = Inr (Some ev)" ..
  from distilled_label_is_intentional_flag [OF ev]
  have "ev_label ev = 0" by (auto simp: dict_get_def)
  with ev show ?thesis by blast
qed

text \<open>
  The claim as written fails on a record whose verdict is intentional for another intent
  than the event's: the teacher answers \<^verbatim>\<open>OPEN_MENU\<close> for a proposed \<^verbatim>\<open>SWITCH_LEFT\<close>, the
  distiller labels the \<^verbatim>\<open>SWITCH_LEFT\<close> event 1, and the spec's label is 0.
\<close>

theorem distilled_label_ignores_final_intent:
  "distill_record
       (JObj [(''event_id'', JStr ''e1''), (''proposed_intent'', JStr ''SWITCH_LEFT''),
              (''response_json'',
                 JObj [(''final_intent'', JStr ''OPEN_MENU''), (''intentional'', JBool True),
                       (''confidence'', JNum (9/10)),
                       (''reason_category'', JStr ''intentional_command'')]),
              (''features'', JObj [(''wristX'', JNum (1/2))])])
     = Inr (Some \<lparr>ev_features = JObj [(''wristX'', JNum (1/2))],
                   ev_gesture_type = JStr ''SWITCH_LEFT'', ev_label = 1,
                   ev_cosmos_conf = JNum (9/10), ev_reason = JStr ''intentional_command'',
                   ev_event_id = JStr ''e1''\<rparr>)
   \<and> spec_label [(''final_intent'', JStr ''OPEN_MENU''), (''intentional'', JBool True),
                  (''confidence'', JNum (9/10)),
                  (''reason_category'', JStr ''intentional_command'')]
        (JStr ''SWITCH_LEFT'') = 0"
  by (simp add: distill_record_def Let_def dict_get_def py_or_def int_bool_def spec_label_def)



section \<open>Regression Gate and Model Registry (\<^verbatim>\<open>main\<close> of \<^verbatim>\<open>train_student.py\<close>)\<close>

definition MIN_SAMPLES :: nat where
  "MIN_SAMPLES = 20"

definition REGRESS_LIMIT :: real where
  "REGRESS_LIMIT = 2 / 100"

text \<open>\<^verbatim>\<open>str(n)\<close> for a non-negative integer, as the f-string \<^verbatim>\<open>f"v{version_num}"\<close> renders it.\<close>

definition digit_char :: "nat \<Rightarrow> char" where
  "digit_char d = ''0123456789'' ! d"

fun str_nat :: "nat \<Rightarrow> string" where
  "str_nat n = (if n < 10 then [digit_char n] else str_nat (n div 10) @ [digit_char (n mod 10)])"

declare str_nat.simps [simp del]

definition version_str :: "nat \<Rightarrow> string" where
  "version_str version_num = ''v'' @ str_nat version_num"

definition versioned_name :: "string \<Rightarrow> string" where
  "versioned_name vstr = vstr @ ''_model.joblib''"

definition current_name :: string where
  "current_name = ''current_model.joblib''"

text \<open>
  The model directory: its joblib files by name, and \<^verbatim>\<open>training_log.json\<close>. The log
  file, when it exists, is a JSON list of run records, or other JSON, or text that
  \<^verbatim>\<open>json.loads\<close> rejects.
\<close>

record audit_record =
  ar_version :: string
  ar_timestamp :: string
  ar_num_samples :: nat
  ar_pos_samples :: int
  ar_neg_samples :: int
  ar_model_type :: string
  ar_test_accuracy :: real
  ar_calib_accuracy :: "real option"
  ar_calib_acc_old :: "real option"
  ar_feature_names :: "string list"

datatype log_file = LogList "audit_record list" | LogNotAList | LogUnparseable

record model_dir =
  joblib_files :: "(string \<times> artifact) list"
  training_log :: "log_file option"

definition empty_dir :: model_dir where
  "empty_dir = \<lparr>joblib_files = [], training_log = None\<rparr>"

text \<open>\<^verbatim>\<open>joblib.dump(obj, path)\<close>: the file is replaced when it exists, created otherwise.\<close>

fun write_file :: "string \<Rightarrow> 'a \<Rightarrow> (string \<times> 'a) list \<Rightarrow> (string \<times> 'a) list" where
  "write_file name obj [] = [(name, obj)]"
| "write_file name obj ((k, x) # files) =
     (if k = name then (name, obj) # files else (k, x) # write_file name obj files)"

text \<open>The pattern \<^verbatim>\<open>v*_model.joblib\<close>.\<close>

definition glob_versioned :: "string \<Rightarrow> bool" where
  "glob_versioned name \<longleftrightarrow>
     14 \<le> length name \<and> take 1 name = ''v'' \<and> drop (length name - 13) name = ''_model.joblib''"

definition versioned_artifacts :: "model_dir \<Rightarrow> string list" where
  "versioned_artifacts dir = filter glob_versioned (map fst (joblib_files dir))"

definition next_version_num :: "model_dir \<Rightarrow> nat" where
  "next_version_num dir = length (versioned_artifacts dir) + 1"

definition current_artifact :: "model_dir \<Rightarrow> artifact option" where
  "current_artifact dir = map_of (joblib_files dir) current_name"

text \<open>
  \<^verbatim>\<open>build_matrix\<close>: one encoded row per event (the label vector is read off the events).
\<close>

definition build_matrix ::
  "(string \<Rightarrow> real option) \<Rightarrow> labeled_event list \<Rightarrow> py_error + real list list" where
  "build_matrix str_float events =
     collect (map (\<lambda>e. features_to_row str_float (ev_features e) (ev_gesture_type e)) events)"

text \<open>
  \<^verbatim>\<open>(model.predict(calib_X) == calib_y).mean()\<close>. The calibration set is the matrix and
  the label vector that \<^verbatim>\<open>load_calibration\<close> returns, kept row by row; it returns
  \<^verbatim>\<open>None\<close> instead of an empty set. Accuracies are exact reals here, doubles in the code.
\<close>

definition accuracy :: "classifier \<Rightarrow> (real list \<times> int) list \<Rightarrow> real" where
  "accuracy m calib =
     real (length (filter (\<lambda>(row, label). clf_predict m row = label) calib))
       / real (length calib)"

text \<open>
  What one run of \<^verbatim>\<open>main\<close> gets from outside the gate and the registry: the events of
  \<^verbatim>\<open>load_labeled_events\<close>, the result of \<^verbatim>\<open>load_calibration\<close>, the classifier that
  \<^verbatim>\<open>train_and_pick\<close> selected with its family name and test accuracy, and the clock.
\<close>

record run_input =
  in_events :: "labeled_event list"
  in_calib :: "(real list \<times> int) list option"
  in_candidate :: classifier
  in_model_type :: string
  in_test_acc :: real
  in_timestamp :: string

definition artifact_model :: "artifact \<Rightarrow> classifier option" where
  "artifact_model old_data = (case old_data of Bundle b \<Rightarrow> b_model b | Bare m \<Rightarrow> Some m)"

text \<open>
  The calibration regression check (lines 206 to 223): the two accuracies, or the exit
  with status 0 that skips the save.
\<close>

definition calibration_check ::
  "(real list \<times> int) list option \<Rightarrow> classifier \<Rightarrow> artifact option
     \<Rightarrow> failure + (real option \<times> real option)" where
  "calibration_check calib new_model current =
     (case calib of
        None \<Rightarrow> Inr (None, None)
      | Some c \<Rightarrow>
          let calib_acc_new = accuracy new_model c
          in case current of
               None \<Rightarrow> Inr (Some calib_acc_new, None)
             | Some old_data \<Rightarrow>
                 (case artifact_model old_data of
                    None \<Rightarrow> Inl (Raised AttributeError)
                  | Some old_model \<Rightarrow>
                      let calib_acc_old = accuracy old_model c
                      in if calib_acc_new < calib_acc_old - REGRESS_LIMIT then Inl (SysExit 0)
                         else Inr (Some calib_acc_new, Some calib_acc_old)))"

definition feature_col_names :: "string list" where
  "feature_col_names = FEATURE_NAMES @ map (\<lambda>g. ''gesture_'' @ g) GESTURE_TYPES"

definition make_bundle :: "run_input \<Rightarrow> string \<Rightarrow> real option \<Rightarrow> model_bundle" where
  "make_bundle input vstr calib_acc_new =
     \<lparr>b_model = Some (in_candidate input),
      b_version = Some vstr,
      b_model_type = in_model_type input,
      b_timestamp = in_timestamp input,
      b_num_samples = length (in_events input),
      b_test_accuracy = py_round (in_test_acc input) 4,
      b_calib_accuracy = map_option (\<lambda>a. py_round a 4) calib_acc_new,
      b_feature_names = feature_col_names\<rparr>"

definition make_audit_record :: "run_input \<Rightarrow> model_bundle \<Rightarrow> real option \<Rightarrow> audit_record" where
  "make_audit_record input bundle calib_acc_old =
     (let pos = sum_list (map ev_label (in_events input));
          neg = int (length (in_events input)) - pos
      in \<lparr>ar_version = (case b_version bundle of Some v \<Rightarrow> v | None \<Rightarrow> []),
          ar_timestamp = b_timestamp bundle,
          ar_num_samples = length (in_events input),
          ar_pos_samples = pos,
          ar_neg_samples = neg,
          ar_model_type = in_model_type input,
          ar_test_accuracy = b_test_accuracy bundle,
          ar_calib_accuracy = b_calib_accuracy bundle,
          ar_calib_acc_old = map_option (\<lambda>a. py_round a 4) calib_acc_old,
          ar_feature_names = feature_col_names\<rparr>)"

text \<open>
  The save (lines 226 to 271): the versioned artifact, then the current one, then the log.
  A log that does not parse is started afresh (the \<^verbatim>\<open>except\<close> branch); one that parses to
  something else than a list has no \<^verbatim>\<open>append\<close>, and the exception leaves the two
  artifacts written.
\<close>

definition save_model ::
  "run_input \<Rightarrow> real option \<Rightarrow> real option \<Rightarrow> model_dir \<Rightarrow> (failure + string) \<times> model_dir" where
  "save_model input calib_acc_new calib_acc_old dir =
     (let vstr = version_str (next_version_num dir);
          model_bundle = make_bundle input vstr calib_acc_new;
          dir1 = dir\<lparr>joblib_files :=
                   write_file current_name (Bundle model_bundle)
                     (write_file (versioned_name vstr) (Bundle model_bundle)
                        (joblib_files dir))\<rparr>;
          entry = make_audit_record input model_bundle calib_acc_old
      in case training_log dir1 of
           None \<Rightarrow> (Inr vstr, dir1\<lparr>training_log := Some (LogList [entry])\<rparr>)
         | Some LogUnparseable \<Rightarrow> (Inr vstr, dir1\<lparr>training_log := Some (LogList [entry])\<rparr>)
         | Some LogNotAList \<Rightarrow> (Inl (Raised AttributeError), dir1)
         | Some (LogList existing_log) \<Rightarrow>
             (Inr vstr, dir1\<lparr>training_log := Some (LogList (existing_log @ [entry]))\<rparr>))"

text \<open>
  \<^verbatim>\<open>main\<close>, from the events on. The result is the version published, or how the run
  ended otherwise, and the model directory as the run leaves it.
\<close>

definition main ::
  "(string \<Rightarrow> real option) \<Rightarrow> run_input \<Rightarrow> model_dir \<Rightarrow> (failure + string) \<times> model_dir" where
  "main str_float input dir =
     (if length (in_events input) < MIN_SAMPLES then (Inl (SysExit 0), dir)
      else case build_matrix str_float (in_events input) of
             Inl e \<Rightarrow> (Inl (Raised e), dir)
           | Inr X \<Rightarrow>
               (case calibration_check (in_calib input) (in_candidate input)
                       (current_artifact dir) of
                  Inl f \<Rightarrow> (Inl f, dir)
                | Inr (calib_acc_new, calib_acc_old) \<Rightarrow>
                    save_model input calib_acc_new calib_acc_old dir))"

text \<open>A sequence of runs, each on the directory the previous one left.\<close>

fun run_all ::
  "(string \<Rightarrow> real option) \<Rightarrow> run_input list \<Rightarrow> model_dir
     \<Rightarrow> (failure + string) list \<times> model_dir" where
  "run_all str_float [] dir = ([], dir)"
| "run_all str_float (input # inputs) dir =
     (case main str_float input dir of
        (out, dir1) \<Rightarrow>
          (case run_all str_float inputs dir1 of (outs, dir2) \<Rightarrow> (out # outs, dir2)))"



definition published :: "(failure + string) list \<Rightarrow> string list" where
  "published outs = List.map_filter (\<lambda>out. case out of Inr v \<Rightarrow> Some v | Inl f \<Rightarrow> None) outs"

definition accepted_runs :: "run_input list \<Rightarrow> (failure + string) list \<Rightarrow> run_input list" where
  "accepted_runs inputs outs = map fst (filter (\<lambda>(input, out). \<not> isl out) (zip inputs outs))"

definition log_records :: "model_dir \<Rightarrow> audit_record list" where
  "log_records dir = (case training_log dir of Some (LogList records) \<Rightarrow> records | _ \<Rightarrow> [])"

text \<open>
  The shape of a model directory that holds the bundles of \<open>k\<close> accepted runs and
  nothing else: the files \<^verbatim>\<open>v1_model.joblib\<close> to \<^verbatim>\<open>vk_model.joblib\<close> with those bundles,
  the current artifact equal to the last of them, and a log of \<open>k\<close> records.
\<close>

definition registry_inv :: "model_dir \<Rightarrow> model_bundle list \<Rightarrow> bool" where
  "registry_inv dir bundles \<longleftrightarrow>
     distinct (map fst (joblib_files dir))
     \<and> fst ` set (joblib_files dir)
         = (\<lambda>i. versioned_name (version_str i)) ` {1..length bundles}
           \<union> (if bundles = [] then {} else {current_name})
     \<and> (\<forall>i<length bundles.
           map_of (joblib_files dir) (versioned_name (version_str (Suc i)))
             = Some (Bundle (bundles ! i))
           \<and> b_version (bundles ! i) = Some (version_str (Suc i))
           \<and> b_model (bundles ! i) \<noteq> None)
     \<and> current_artifact dir = (if bundles = [] then None else Some (Bundle (last bundles)))
     \<and> training_log dir = (if bundles = [] then None else Some (LogList (log_records dir)))
     \<and> map ar_version (log_records dir) = map version_str [1..<Suc (length bundles)]"

lemma digit_char_inj: "a < 10 \<Longrightarrow> b < 10 \<Longrightarrow> digit_char a = digit_char b \<Longrightarrow> a = b"
proof -
  have d: "distinct ''0123456789''" by simp
  have l: "length ''0123456789'' = 10" by simp
  show "a < 10 \<Longrightarrow> b < 10 \<Longrightarrow> digit_char a = digit_char b \<Longrightarrow> a = b"
    unfolding digit_char_def using nth_eq_iff_index_eq [OF d, of a b] l by simp
qed

lemma str_nat_nonempty: "str_nat n \<noteq> []"
  by (subst str_nat.simps) simp

lemma str_nat_inj: "str_nat n = str_nat m \<Longrightarrow> n = m"
proof (induction n arbitrary: m rule: str_nat.induct)
  case (1 n)
  show ?case
  proof (cases "n < 10")
    case small_n: True
    show ?thesis
    proof (cases "m < 10")
      case True
      with small_n "1.prems" show ?thesis
        by (simp add: str_nat.simps [of n] str_nat.simps [of m] digit_char_inj)
    next
      case False
      with small_n "1.prems" str_nat_nonempty [of "m div 10"] show ?thesis
        by (simp add: str_nat.simps [of n] str_nat.simps [of m])
    qed
  next
    case big_n: False
    show ?thesis
    proof (cases "m < 10")
      case True
      with big_n "1.prems" str_nat_nonempty [of "n div 10"] show ?thesis
        by (simp add: str_nat.simps [of n] str_nat.simps [of m])
    next
      case False
      with big_n "1.prems" have eq: "str_nat (n div 10) = str_nat (m div 10)"
        and dg: "digit_char (n mod 10) = digit_char (m mod 10)"
        by (simp_all add: str_nat.simps [of n] str_nat.simps [of m])
      from "1.IH" [OF big_n eq] have "n div 10 = m div 10" .
      moreover from dg have "n mod 10 = m mod 10" by (intro digit_char_inj) simp_all
      ultimately show ?thesis by (metis div_mult_mod_eq)
    qed
  qed
qed

lemma versioned_name_inj:
  "versioned_name (version_str i) = versioned_name (version_str j) \<longleftrightarrow> i = j"
  by (auto simp: versioned_name_def version_str_def dest: str_nat_inj)

lemma glob_versioned_name [simp]: "glob_versioned (versioned_name (version_str i))"
  using str_nat_nonempty [of i]
  by (simp add: glob_versioned_def versioned_name_def version_str_def)

lemma glob_current_name [simp]: "\<not> glob_versioned current_name"
  by (simp add: glob_versioned_def current_name_def)

lemma versioned_not_current [simp]: "versioned_name (version_str i) \<noteq> current_name"
  "current_name \<noteq> versioned_name (version_str i)"
  by (auto simp: versioned_name_def version_str_def current_name_def)

lemma map_of_write_file: "map_of (write_file name obj files) = (map_of files)(name \<mapsto> obj)"
  by (induction files) (auto simp: fun_eq_iff)

lemma set_fst_write_file:
  "fst ` set (write_file name obj files) = insert name (fst ` set files)"
  by (simp add: dom_map_of_conv_image_fst [symmetric] map_of_write_file)

lemma distinct_write_file:
  "distinct (map fst files) \<Longrightarrow> distinct (map fst (write_file name obj files))"
  by (induction files) (auto simp: set_fst_write_file)


lemma collect_replicate: "collect (replicate n (Inr x)) = Inr (replicate n x)"
  by (induction n) simp_all





lemma registry_inv_empty: "registry_inv empty_dir []"
  by (simp add: registry_inv_def empty_dir_def current_artifact_def log_records_def)

lemma registry_inv_count:
  assumes "registry_inv dir bundles"
  shows "length (versioned_artifacts dir) = length bundles"
proof -
  let ?names = "map fst (joblib_files dir)"
  let ?vn = "\<lambda>i. versioned_name (version_str i)"
  from assms have d: "distinct ?names"
    and s: "set ?names = ?vn ` {1..length bundles} \<union> (if bundles = [] then {} else {current_name})"
    by (simp_all add: registry_inv_def)
  have "set (filter glob_versioned ?names) = ?vn ` {1..length bundles}"
    unfolding set_filter s by auto
  moreover have "distinct (filter glob_versioned ?names)" using d by simp
  ultimately have "length (filter glob_versioned ?names) = card (?vn ` {1..length bundles})"
    using distinct_card by metis
  also have "\<dots> = card {1..length bundles}"
    by (intro card_image inj_onI) (simp add: versioned_name_inj)
  finally show ?thesis by (simp add: versioned_artifacts_def)
qed

lemma registry_inv_save:
  assumes inv: "registry_inv dir bundles"
  shows "\<exists>b. save_model input new old dir
                = (Inr (version_str (Suc (length bundles))),
                   snd (save_model input new old dir))
           \<and> registry_inv (snd (save_model input new old dir)) (bundles @ [b])
           \<and> b_model b = Some (in_candidate input)
           \<and> (\<exists>r. log_records (snd (save_model input new old dir)) = log_records dir @ [r])"
proof -
  let ?k = "length bundles"
  let ?vn = "\<lambda>i. versioned_name (version_str i)"
  let ?v = "version_str (Suc ?k)"
  let ?b = "make_bundle input ?v new"
  let ?r = "make_audit_record input ?b old"
  let ?files = "write_file current_name (Bundle ?b)
                  (write_file (versioned_name ?v) (Bundle ?b) (joblib_files dir))"
  let ?dir' = "\<lparr>joblib_files = ?files, training_log = Some (LogList (log_records dir @ [?r]))\<rparr>"
  from registry_inv_count [OF inv] have next_v: "next_version_num dir = Suc ?k"
    by (simp add: next_version_num_def)
  from inv have log: "training_log dir = (if bundles = [] then None else Some (LogList (log_records dir)))"
    by (simp add: registry_inv_def)
  have lr: "bundles = [] \<Longrightarrow> log_records dir = []"
    using log by (simp add: log_records_def)
  have saved: "save_model input new old dir = (Inr ?v, ?dir')"
    using log lr by (cases "bundles = []") (simp_all add: save_model_def Let_def next_v)
  have names: "fst ` set ?files = ?vn ` {1..Suc ?k} \<union> {current_name}"
  proof -
    from inv have "fst ` set (joblib_files dir)
        = ?vn ` {1..?k} \<union> (if bundles = [] then {} else {current_name})"
      by (simp add: registry_inv_def)
    moreover have "{1..Suc ?k} = insert (Suc ?k) {1..?k}" by auto
    ultimately show ?thesis by (auto simp: set_fst_write_file)
  qed
  have old_files: "map_of ?files (?vn (Suc i)) = Some (Bundle ((bundles @ [?b]) ! i))
      \<and> b_version ((bundles @ [?b]) ! i) = Some (version_str (Suc i))
      \<and> b_model ((bundles @ [?b]) ! i) \<noteq> None" if "i < Suc ?k" for i
  proof (cases "i < ?k")
    case True
    with inv have "map_of (joblib_files dir) (?vn (Suc i)) = Some (Bundle (bundles ! i))"
      "b_version (bundles ! i) = Some (version_str (Suc i))" "b_model (bundles ! i) \<noteq> None"
      by (simp_all add: registry_inv_def)
    with True show ?thesis
      by (simp add: map_of_write_file nth_append versioned_name_inj)
  next
    case False
    with that have "i = ?k" by simp
    then show ?thesis by (simp add: map_of_write_file make_bundle_def)
  qed
  have "registry_inv ?dir' (bundles @ [?b])"
    unfolding registry_inv_def
  proof (intro conjI)
    from inv show "distinct (map fst (joblib_files ?dir'))"
      by (simp add: registry_inv_def distinct_write_file)
    show "fst ` set (joblib_files ?dir')
        = ?vn ` {1..length (bundles @ [?b])}
          \<union> (if bundles @ [?b] = [] then {} else {current_name})"
      using names by simp
    show "\<forall>i<length (bundles @ [?b]).
       map_of (joblib_files ?dir') (?vn (Suc i)) = Some (Bundle ((bundles @ [?b]) ! i))
       \<and> b_version ((bundles @ [?b]) ! i) = Some (version_str (Suc i))
       \<and> b_model ((bundles @ [?b]) ! i) \<noteq> None"
      using old_files by simp
    show "current_artifact ?dir'
        = (if bundles @ [?b] = [] then None else Some (Bundle (last (bundles @ [?b]))))"
      by (simp add: current_artifact_def map_of_write_file)
    show "training_log ?dir'
        = (if bundles @ [?b] = [] then None else Some (LogList (log_records ?dir')))"
      by (simp add: log_records_def)
    from inv have "map ar_version (log_records dir) = map version_str [1..<Suc ?k]"
      by (simp add: registry_inv_def)
    then show "map ar_version (log_records ?dir')
        = map version_str [1..<Suc (length (bundles @ [?b]))]"
      by (simp add: log_records_def make_audit_record_def Let_def make_bundle_def)
  qed
  moreover have "b_model ?b = Some (in_candidate input)" by (simp add: make_bundle_def)
  moreover have "log_records ?dir' = log_records dir @ [?r]" by (simp add: log_records_def)
  ultimately show ?thesis unfolding saved by auto
qed

lemma registry_inv_gate:
  assumes "registry_inv dir bundles"
  shows "calibration_check calib new_model (current_artifact dir) \<noteq> Inl (Raised e)"
proof (cases "bundles = []")
  case True
  with assms have "current_artifact dir = None" by (simp add: registry_inv_def)
  then show ?thesis by (simp add: calibration_check_def Let_def split: option.splits)
next
  case False
  with assms have cur: "current_artifact dir = Some (Bundle (last bundles))"
    by (simp add: registry_inv_def)
  from False have "last bundles = bundles ! (length bundles - 1)" by (simp add: last_conv_nth)
  with assms False have "b_model (last bundles) \<noteq> None"
    by (simp add: registry_inv_def)
  then show ?thesis
    by (auto simp: calibration_check_def Let_def cur artifact_model_def split: option.splits)
qed

lemma registry_inv_main:
  assumes inv: "registry_inv dir bundles" and run: "main sf input dir = (out, dir')"
  shows "case out of
           Inl f \<Rightarrow> dir' = dir
         | Inr v \<Rightarrow> v = version_str (Suc (length bundles))
             \<and> (\<exists>b r. registry_inv dir' (bundles @ [b]) \<and> b_model b = Some (in_candidate input)
                      \<and> log_records dir' = log_records dir @ [r])"
proof (cases "length (in_events input) < MIN_SAMPLES")
  case True
  with run show ?thesis by (auto simp: main_def)
next
  case enough: False
  show ?thesis
  proof (cases "build_matrix sf (in_events input)")
    case (Inl e)
    with enough run show ?thesis by (auto simp: main_def)
  next
    case (Inr X)
    show ?thesis
    proof (cases "calibration_check (in_calib input) (in_candidate input) (current_artifact dir)")
      case (Inl f)
      with enough Inr run show ?thesis by (auto simp: main_def)
    next
      case accs: (Inr accs)
      obtain new old where "accs = (new, old)" by (cases accs)
      with enough Inr accs run have "save_model input new old dir = (out, dir')"
        by (simp add: main_def)
      with registry_inv_save [OF inv, of input new old] show ?thesis by auto
    qed
  qed
qed

lemma published_Cons:
  "published (Inr v # outs) = v # published outs" "published (Inl f # outs) = published outs"
  "published [] = []"
  by (simp_all add: published_def List.map_filter_simps)

lemma accepted_runs_Cons:
  "accepted_runs (i # inputs) (Inr v # outs) = i # accepted_runs inputs outs"
  "accepted_runs (i # inputs) (Inl f # outs) = accepted_runs inputs outs"
  "accepted_runs [] outs = []"
  by (simp_all add: accepted_runs_def)

lemma registry_inv_run_all:
  assumes "registry_inv dir bundles" and "run_all sf inputs dir = (outs, dir')"
  shows "\<exists>bundles' records'.
           registry_inv dir' (bundles @ bundles')
           \<and> published outs
               = map version_str [Suc (length bundles)..<Suc (length bundles + length bundles')]
           \<and> map b_model bundles' = map (\<lambda>i. Some (in_candidate i)) (accepted_runs inputs outs)
           \<and> log_records dir' = log_records dir @ records'
           \<and> length records' = length bundles'"
  using assms
proof (induction inputs arbitrary: dir bundles outs)
  case Nil
  then have "registry_inv dir' (bundles @ [])" "outs = []" "dir' = dir" by auto
  then show ?case
    by (intro exI [of _ "[]"]) (simp add: published_Cons accepted_runs_Cons)
next
  case (Cons input inputs)
  obtain out dir1 where step: "main sf input dir = (out, dir1)" by (cases "main sf input dir")
  obtain outs1 where rest: "run_all sf inputs dir1 = (outs1, dir')" and outs: "outs = out # outs1"
    using Cons.prems(2) step by (auto split: prod.splits)
  show ?case
  proof (cases out)
    case (Inl f)
    with registry_inv_main [OF Cons.prems(1) step] have "dir1 = dir" by simp
    with Cons.IH [OF Cons.prems(1)] rest obtain bundles' records' where
      "registry_inv dir' (bundles @ bundles')"
      "published outs1
         = map version_str [Suc (length bundles)..<Suc (length bundles + length bundles')]"
      "map b_model bundles' = map (\<lambda>i. Some (in_candidate i)) (accepted_runs inputs outs1)"
      "log_records dir' = log_records dir @ records'" "length records' = length bundles'"
      by blast
    with Inl outs show ?thesis
      by (intro exI [of _ bundles'] exI [of _ records'])
         (simp add: published_Cons accepted_runs_Cons)
  next
    case (Inr v)
    with registry_inv_main [OF Cons.prems(1) step] obtain b r where
      v: "v = version_str (Suc (length bundles))"
      and inv1: "registry_inv dir1 (bundles @ [b])"
      and b: "b_model b = Some (in_candidate input)"
      and r: "log_records dir1 = log_records dir @ [r]"
      by auto
    from Cons.IH [OF inv1 rest] obtain bundles' records' where
      i: "registry_inv dir' ((bundles @ [b]) @ bundles')"
      and p: "published outs1 = map version_str
         [Suc (length (bundles @ [b]))..<Suc (length (bundles @ [b]) + length bundles')]"
      and m: "map b_model bundles' = map (\<lambda>i. Some (in_candidate i)) (accepted_runs inputs outs1)"
      and l: "log_records dir' = log_records dir1 @ records'" "length records' = length bundles'"
      by blast
    have "[Suc (length bundles)..<Suc (length bundles + length (b # bundles'))]
        = Suc (length bundles)
          # [Suc (length (bundles @ [b]))..<Suc (length (bundles @ [b]) + length bundles')]"
      by (simp add: upt_conv_Cons del: upt_Suc)
    then have "published outs
        = map version_str [Suc (length bundles)..<Suc (length bundles + length (b # bundles'))]"
      using p v by (simp add: outs Inr published_Cons del: upt_Suc)
    with i m l b r show ?thesis
      by (intro exI [of _ "b # bundles'"] exI [of _ "r # records'"])
         (simp add: outs Inr accepted_runs_Cons)
  qed
qed

text \<open>
  C7. Let any sequence of training runs start from an empty model directory, \<open>N\<close> of them
  publishing. Afterwards exactly \<open>N\<close> versioned artifacts exist; the versions assigned were
  \<^verbatim>\<open>v1\<close>, ..., \<^verbatim>\<open>vN\<close> in this order; the current artifact is absent when \<open>N = 0\<close> and otherwise
  is the bundle of the last accepted run, the same as artifact \<^verbatim>\<open>vN\<close>; the log holds one
  record per accepted run, in order. Any further run from there either publishes under
  the number of existing versioned artifacts plus one, or (as a gate-rejected run does)
  leaves the whole directory unchanged; and whatever runs follow, the log only grows at
  its end by one record per accepted run and the versioned artifacts stay as written.
\<close>

theorem registry_versioning:
  assumes "run_all sf inputs empty_dir = (outs, dir)"
    and "run_all sf later dir = (outs', dir')"
  shows "length (versioned_artifacts dir) = length (published outs)
     \<and> published outs = map version_str [1..<Suc (length (published outs))]
     \<and> (published outs = [] \<longrightarrow> current_artifact dir = None)
     \<and> (published outs \<noteq> [] \<longrightarrow>
          (\<exists>b. current_artifact dir = Some (Bundle b)
             \<and> map_of (joblib_files dir) (versioned_name (last (published outs)))
                 = Some (Bundle b)
             \<and> b_version b = Some (last (published outs))
             \<and> b_model b = Some (in_candidate (last (accepted_runs inputs outs)))))
     \<and> training_log dir
         = (if published outs = [] then None else Some (LogList (log_records dir)))
     \<and> map ar_version (log_records dir) = published outs
     \<and> (\<forall>input out d. main sf input dir = (out, d) \<longrightarrow>
          (case out of
             Inl f \<Rightarrow> d = dir
           | Inr v \<Rightarrow> v = version_str (length (versioned_artifacts dir) + 1)))
     \<and> (\<exists>records'. log_records dir' = log_records dir @ records'
            \<and> length records' = length (published outs'))
     \<and> (\<forall>v \<in> set (published outs).
          map_of (joblib_files dir') (versioned_name v)
            = map_of (joblib_files dir) (versioned_name v))"
proof -
  from registry_inv_run_all [OF registry_inv_empty assms(1)]
  obtain bundles where inv: "registry_inv dir bundles"
    and pub: "published outs = map version_str [1..<Suc (length bundles)]"
    and models: "map b_model bundles = map (\<lambda>i. Some (in_candidate i)) (accepted_runs inputs outs)"
    by auto
  let ?k = "length bundles"
  have len: "length (published outs) = ?k" by (simp add: pub del: upt_Suc)
  have empty_iff: "published outs = [] \<longleftrightarrow> bundles = []"
    using len by (metis length_0_conv)
  from registry_inv_run_all [OF inv assms(2)]
  obtain bundles' records' where inv': "registry_inv dir' (bundles @ bundles')"
    and pub': "published outs'
       = map version_str [Suc ?k..<Suc (?k + length bundles')]"
    and log': "log_records dir' = log_records dir @ records'" "length records' = length bundles'"
    by auto
  have c1: "length (versioned_artifacts dir) = length (published outs)"
    using registry_inv_count [OF inv] len by simp
  have c2: "published outs = map version_str [1..<Suc (length (published outs))]"
    unfolding len by (rule pub)
  have c3: "published outs = [] \<longrightarrow> current_artifact dir = None"
    using inv empty_iff by (simp add: registry_inv_def)
  have c4: "published outs \<noteq> [] \<longrightarrow>
          (\<exists>b. current_artifact dir = Some (Bundle b)
             \<and> map_of (joblib_files dir) (versioned_name (last (published outs)))
                 = Some (Bundle b)
             \<and> b_version b = Some (last (published outs))
             \<and> b_model b = Some (in_candidate (last (accepted_runs inputs outs))))"
  proof
    assume "published outs \<noteq> []"
    with empty_iff have ne: "bundles \<noteq> []" by simp
    then obtain k' where k': "?k = Suc k'" by (cases bundles) auto
    from ne have last_b: "last bundles = bundles ! k'" by (simp add: last_conv_nth k')
    have "[1..<Suc ?k] = [1..<?k] @ [?k]" by (simp add: k')
    then have last_p: "last (published outs) = version_str (Suc k')"
      unfolding pub by (simp add: k')
    from inv ne have cur: "current_artifact dir = Some (Bundle (last bundles))"
      by (simp add: registry_inv_def)
    have "k' < ?k" by (simp add: k')
    with inv have
      "map_of (joblib_files dir) (versioned_name (version_str (Suc k')))
         = Some (Bundle (bundles ! k'))"
      "b_version (bundles ! k') = Some (version_str (Suc k'))"
      unfolding registry_inv_def by blast+
    then have stored: "map_of (joblib_files dir) (versioned_name (last (published outs)))
         = Some (Bundle (last bundles))"
      and ver: "b_version (last bundles) = Some (last (published outs))"
      by (simp_all add: last_b last_p)
    from models have "length (accepted_runs inputs outs) = ?k"
      by (metis length_map)
    with ne have acc_ne: "accepted_runs inputs outs \<noteq> []" by auto
    have "b_model (last bundles) = last (map b_model bundles)"
      using ne by (simp add: last_map)
    also have "\<dots> = Some (in_candidate (last (accepted_runs inputs outs)))"
      using acc_ne by (simp add: models last_map)
    finally show "\<exists>b. current_artifact dir = Some (Bundle b)
             \<and> map_of (joblib_files dir) (versioned_name (last (published outs)))
                 = Some (Bundle b)
             \<and> b_version b = Some (last (published outs))
             \<and> b_model b = Some (in_candidate (last (accepted_runs inputs outs)))"
      using cur stored ver by blast
  qed
  have c5: "training_log dir
      = (if published outs = [] then None else Some (LogList (log_records dir)))"
    using inv empty_iff by (simp add: registry_inv_def)
  have c6: "map ar_version (log_records dir) = published outs"
    using inv unfolding pub registry_inv_def by blast
  have c7: "\<forall>input out d. main sf input dir = (out, d) \<longrightarrow>
          (case out of
             Inl f \<Rightarrow> d = dir
           | Inr v \<Rightarrow> v = version_str (length (versioned_artifacts dir) + 1))"
  proof (intro allI impI)
    fix input out d
    assume "main sf input dir = (out, d)"
    from registry_inv_main [OF inv this] registry_inv_count [OF inv]
    show "case out of
             Inl f \<Rightarrow> d = dir
           | Inr v \<Rightarrow> v = version_str (length (versioned_artifacts dir) + 1)"
      by (auto split: sum.splits)
  qed
  have c8: "\<exists>records'. log_records dir' = log_records dir @ records'
            \<and> length records' = length (published outs')"
  proof -
    have "length (published outs') = length bundles'" by (simp add: pub' del: upt_Suc)
    with log' show ?thesis by auto
  qed
  have c9: "\<forall>v \<in> set (published outs).
          map_of (joblib_files dir') (versioned_name v)
            = map_of (joblib_files dir) (versioned_name v)"
  proof
    fix v
    assume "v \<in> set (published outs)"
    then obtain j where j: "1 \<le> j" "j < Suc ?k" and vj: "v = version_str j"
      unfolding pub by (auto simp del: upt_Suc)
    define i where "i = j - 1"
    with j vj have i: "i < ?k" and v: "v = version_str (Suc i)" by simp_all
    from inv i have "map_of (joblib_files dir) (versioned_name (version_str (Suc i)))
        = Some (Bundle (bundles ! i))"
      unfolding registry_inv_def by blast
    moreover from inv' i have "map_of (joblib_files dir') (versioned_name (version_str (Suc i)))
        = Some (Bundle ((bundles @ bundles') ! i))"
      unfolding registry_inv_def by simp
    ultimately show "map_of (joblib_files dir') (versioned_name v)
            = map_of (joblib_files dir) (versioned_name v)"
      using i by (simp add: v nth_append)
  qed
  from c1 c2 c3 c4 c5 c6 c7 c8 c9 show ?thesis by blast
qed

theorem registry_versioning_witness:
  "(let event = \<lparr>ev_features = JObj [], ev_gesture_type = JStr ''OPEN_MENU'', ev_label = 1,
                  ev_cosmos_conf = JNum 1, ev_reason = JStr ''intentional_command'',
                  ev_event_id = JStr []\<rparr>;
        good = \<lparr>in_events = replicate 20 event, in_calib = Some [([1], 1)],
                in_candidate = \<lparr>clf_predict = (\<lambda>row. 1), clf_predict_proba = (\<lambda>row. [])\<rparr>,
                in_model_type = ''RandomForest'', in_test_acc = 1,
                in_timestamp = ''2026-03-01T00:00:00Z''\<rparr>;
        bad = \<lparr>in_events = replicate 20 event, in_calib = Some [([1], 1)],
               in_candidate = \<lparr>clf_predict = (\<lambda>row. 0), clf_predict_proba = (\<lambda>row. [])\<rparr>,
               in_model_type = ''LogisticRegression'', in_test_acc = 1,
               in_timestamp = ''2026-03-02T00:00:00Z''\<rparr>;
        result = run_all Map.empty [good, bad] empty_dir
    in fst result = [Inr ''v1'', Inl (SysExit 0)]
       \<and> length (versioned_artifacts (snd result)) = 1
       \<and> map ar_version (log_records (snd result)) = [''v1''])"
proof -
  let ?event = "\<lparr>ev_features = JObj [], ev_gesture_type = JStr ''OPEN_MENU'', ev_label = 1,
                  ev_cosmos_conf = JNum 1, ev_reason = JStr ''intentional_command'',
                  ev_event_id = JStr []\<rparr>"
  let ?good = "\<lparr>in_events = replicate 20 ?event, in_calib = Some [([1::real], 1::int)],
                in_candidate = \<lparr>clf_predict = (\<lambda>row. 1::int), clf_predict_proba = (\<lambda>row. [])\<rparr>,
                in_model_type = ''RandomForest'', in_test_acc = 1,
                in_timestamp = ''2026-03-01T00:00:00Z''\<rparr>"
  let ?bad = "\<lparr>in_events = replicate 20 ?event, in_calib = Some [([1::real], 1::int)],
               in_candidate = \<lparr>clf_predict = (\<lambda>row. 0::int), clf_predict_proba = (\<lambda>row. [])\<rparr>,
               in_model_type = ''LogisticRegression'', in_test_acc = 1,
               in_timestamp = ''2026-03-02T00:00:00Z''\<rparr>"
  obtain outs dir where first: "run_all Map.empty [?good, ?bad] empty_dir = (outs, dir)"
    by (cases "run_all Map.empty [?good, ?bad] empty_dir")
  have later: "run_all Map.empty [] dir = ([], dir)" by simp
  have row: "features_to_row Map.empty (JObj []) (JStr ''OPEN_MENU'')
      = Inr [0, 0, 0, 0, 0, 0, 0, 0, 0, 0, 0, 0, 1, 0, 0, 0]"
    by (simp add: features_to_row_def numeric_part_def FEATURE_NAMES_def dict_get_def
        onehot_def GESTURE_TYPES_def)
  have "fst (run_all Map.empty [?good, ?bad] empty_dir) = [Inr ''v1'', Inl (SysExit 0)]"
    by (simp add: main_def MIN_SAMPLES_def build_matrix_def row collect_replicate
        calibration_check_def current_artifact_def empty_dir_def accuracy_def Let_def
        save_model_def next_version_num_def versioned_artifacts_def version_str_def
        str_nat.simps digit_char_def artifact_model_def make_bundle_def REGRESS_LIMIT_def
        current_name_def versioned_name_def glob_versioned_def split: prod.splits)
  with first have outs: "outs = [Inr ''v1'', Inl (SysExit 0)]" by simp
  then have pub: "published outs = [''v1'']" by (simp add: published_Cons)
  from registry_versioning [OF first later] pub
  have "length (versioned_artifacts dir) = 1" "map ar_version (log_records dir) = [''v1'']"
    by simp_all
  with first outs show ?thesis by (simp add: Let_def)
qed


end
